theory Spec2Isabelle
  imports Main "HOL-Library.List_Lexorder" "HOL-Library.Char_ord"
begin

section \<open>Import resolution of the JavaScript Gazelle extension\<close>

text \<open>
  A shallow embedding of \<^verbatim>\<open>gazelle/resolve.go\<close>: the functions
  \<^verbatim>\<open>isNpmDependency\<close>, \<^verbatim>\<open>hasPrefix\<close>, \<^verbatim>\<open>tryResolve\<close>,
  \<^verbatim>\<open>resolveWalkParents\<close> and \<^verbatim>\<open>Resolve\<close>, together with the few functions
  of Go's \<^verbatim>\<open>strings\<close> and \<^verbatim>\<open>path\<close> packages and of bazel-gazelle's
  \<^verbatim>\<open>label\<close> package that they call.
\<close>

subsection \<open>Go's strings package\<close>

text \<open>\<^verbatim>\<open>strings.HasPrefix(s, prefix)\<close> and \<^verbatim>\<open>strings.TrimPrefix(s, prefix)\<close>.\<close>

definition HasPrefix :: "string \<Rightarrow> string \<Rightarrow> bool" where
  "HasPrefix s p = (take (length p) s = p)"

definition TrimPrefix :: "string \<Rightarrow> string \<Rightarrow> string" where
  "TrimPrefix s p = (if HasPrefix s p then drop (length p) s else s)"

text \<open>
  \<^verbatim>\<open>strings.Split(s, "/")\<close> for a one-byte separator: the pieces between the
  separators, always at least one piece.
\<close>

fun splitOn :: "char \<Rightarrow> string \<Rightarrow> string list" where
  "splitOn c [] = [[]]"
| "splitOn c (x # xs) =
     (if x = c then [] # splitOn c xs
      else (x # hd (splitOn c xs)) # tl (splitOn c xs))"

text \<open>\<^verbatim>\<open>strings.Join(elems, sep)\<close>.\<close>

fun joinWith :: "string \<Rightarrow> string list \<Rightarrow> string" where
  "joinWith sep [] = []"
| "joinWith sep [x] = x"
| "joinWith sep (x # y # ys) = x @ sep @ joinWith sep (y # ys)"

subsection \<open>Go's path package\<close>

text \<open>
  \<^verbatim>\<open>path.Clean\<close> works on the slash-separated elements of the path: empty
  elements and \<^verbatim>\<open>.\<close> are dropped, \<^verbatim>\<open>..\<close> removes the element before it
  when there is one that is not itself \<^verbatim>\<open>..\<close>, is dropped at the start of a
  rooted path and is kept otherwise. The elements kept so far are held with the
  last one first.
\<close>

definition cleanStep :: "bool \<Rightarrow> string list \<Rightarrow> string \<Rightarrow> string list" where
  "cleanStep rooted st e =
     (if e = [] \<or> e = ''.'' then st
      else if e = ''..'' then
        (if st \<noteq> [] \<and> hd st \<noteq> ''..'' then tl st
         else if rooted then st
         else ''..'' # st)
      else e # st)"

definition path_Clean :: "string \<Rightarrow> string" where
  "path_Clean p =
     (if p = [] then ''.''
      else
        (let rooted = (hd p = CHR ''/'');
             body = joinWith ''/'' (rev (foldl (cleanStep rooted) [] (splitOn CHR ''/'' p)))
         in if rooted then CHR ''/'' # body
            else if body = [] then ''.''
            else body))"

text \<open>
  \<^verbatim>\<open>path.Join(elem...)\<close>: the elements from the first non-empty one on are
  joined with slashes and the result is cleaned; when every element is empty the
  result is the empty string (and not \<^verbatim>\<open>.\<close>).
\<close>

definition path_Join :: "string list \<Rightarrow> string" where
  "path_Join elems =
     (case dropWhile (\<lambda>e. e = []) elems of
        [] \<Rightarrow> []
      | e # es \<Rightarrow> path_Clean (joinWith ''/'' (e # es)))"

text \<open>
  \<^verbatim>\<open>path.Dir(p)\<close>: everything up to and including the last slash, cleaned.
  \<^verbatim>\<open>path.Base(p)\<close>: the last element of the path.
\<close>

definition path_Dir :: "string \<Rightarrow> string" where
  "path_Dir p = path_Clean (rev (dropWhile (\<lambda>ch. ch \<noteq> CHR ''/'') (rev p)))"

definition path_Base :: "string \<Rightarrow> string" where
  "path_Base p =
     (if p = [] then ''.''
      else
        (let q = dropWhile (\<lambda>ch. ch = CHR ''/'') (rev p);
             b = rev (takeWhile (\<lambda>ch. ch \<noteq> CHR ''/'') q)
         in if b = [] then ''/'' else b))"

subsection \<open>bazel-gazelle's label package\<close>

text \<open>
  \<^verbatim>\<open>label.Label\<close> is a struct of three strings and a flag; \<^verbatim>\<open>label.NoLabel\<close>
  is its zero value. \<^verbatim>\<open>Equal\<close> compares the four fields. \<^verbatim>\<open>Abs\<close> makes a
  relative label absolute in the given repository and package; \<^verbatim>\<open>Rel\<close> drops
  from an absolute label of the given repository the repository, and the package
  too when it is the given one. \<^verbatim>\<open>String\<close> prints a relative label as
  \<^verbatim>\<open>:name\<close> and an absolute one as \<^verbatim>\<open>@repo//pkg:name\<close>, without the
  \<^verbatim>\<open>@repo\<close> when the repository is empty and without the \<^verbatim>\<open>:name\<close> when
  the name is the last element of the package path.
\<close>

record Label =
  Repo :: string
  Pkg :: string
  Name :: string
  Relative :: bool

definition NoLabel :: Label where
  "NoLabel = \<lparr>Repo = [], Pkg = [], Name = [], Relative = False\<rparr>"

definition Equal :: "Label \<Rightarrow> Label \<Rightarrow> bool" where
  "Equal l other =
     (Repo l = Repo other \<and> Pkg l = Pkg other \<and> Name l = Name other
      \<and> Relative l = Relative other)"

definition Abs :: "Label \<Rightarrow> string \<Rightarrow> string \<Rightarrow> Label" where
  "Abs l repo pkg =
     (if \<not> Relative l then l
      else \<lparr>Repo = repo, Pkg = pkg, Name = Name l, Relative = False\<rparr>)"

definition Rel :: "Label \<Rightarrow> string \<Rightarrow> string \<Rightarrow> Label" where
  "Rel l repo pkg =
     (if Relative l \<or> Repo l \<noteq> repo then l
      else if Pkg l = pkg then \<lparr>Repo = [], Pkg = [], Name = Name l, Relative = True\<rparr>
      else \<lparr>Repo = [], Pkg = Pkg l, Name = Name l, Relative = False\<rparr>)"

definition String :: "Label \<Rightarrow> string" where
  "String l =
     (if Relative l then '':'' @ Name l
      else
        (let repo = (if Repo l \<noteq> [] then ''@'' @ Repo l else [])
         in if path_Base (Pkg l) = Name l then repo @ ''//'' @ Pkg l
            else repo @ ''//'' @ Pkg l @ '':'' @ Name l))"

subsection \<open>The collaborators of the resolver\<close>

text \<open>
  The rule index answers \<^verbatim>\<open>ix.FindRulesByImportWithConfig\<close> for this
  language: the rules that provide an import string. A \<^verbatim>\<open>resolve.FindResult\<close>
  carries the rule's label and the labels it embeds; \<^verbatim>\<open>IsSelfImport\<close> holds
  when the importing rule is the rule found or one of its embeds.
\<close>

record FindResult =
  findLabel :: Label
  Embeds :: "Label list"

definition IsSelfImport :: "FindResult \<Rightarrow> Label \<Rightarrow> bool" where
  "IsSelfImport res from = (Equal from (findLabel res) \<or> list_ex (Equal from) (Embeds res))"

type_synonym RuleIndex = "string \<Rightarrow> FindResult list"

text \<open>
  The file system answers \<^verbatim>\<open>os.Stat\<close>: nothing when the call fails, else
  the file's name and whether it is a directory.
\<close>

record FileInfo =
  fileInfoName :: string
  IsDir :: bool

type_synonym FileSystem = "string \<Rightarrow> FileInfo option"

text \<open>
  \<^verbatim>\<open>JsConfig\<close> is declared outside \<^verbatim>\<open>resolve.go\<close>; these are the fields the
  resolver reads. The two dependency tables are Go maps from package name to
  label prefix, held as association lists; \<^verbatim>\<open>ImportAliasPattern\<close> is a
  compiled regular expression, held as its \<^verbatim>\<open>FindStringSubmatch\<close> function
  (the empty list when the pattern does not match, else the matched text
  followed by the groups).
\<close>

record JsConfig =
  Dependencies :: "(string \<times> string) list"
  DevDependencies :: "(string \<times> string) list"
  LookupTypes :: bool
  ImportAliases :: "(string \<times> string) list"
  ImportAliasPattern :: "string \<Rightarrow> string list"
  JSRoot :: string
  DefaultNpmLabel :: string
  Quiet :: bool
  Verbose :: bool

text \<open>
  Of \<^verbatim>\<open>config.Config\<close> the resolver reads the repository root, the
  per-package \<^verbatim>\<open>JsConfig\<close> table and, through
  \<^verbatim>\<open>resolve.FindRuleWithOverride\<close>, the table of manual overrides.
\<close>

record Config =
  RepoRoot :: string
  JsConfigs :: "string \<Rightarrow> JsConfig"
  FindRuleWithOverride :: "string \<Rightarrow> Label option"

text \<open>
  The parts of the language extension that \<^verbatim>\<open>resolve.go\<close> uses and that are
  declared in other files: the two extension tables, the web-asset test and the
  kind mapping \<^verbatim>\<open>getKind\<close>.
\<close>

record JS =
  tsExtensions :: "string list"
  jsExtensions :: "string list"
  isWebAsset :: "JsConfig \<Rightarrow> string \<Rightarrow> bool"
  getKind :: "Config \<Rightarrow> string \<Rightarrow> string"

text \<open>A rule has a kind and attributes; \<^verbatim>\<open>SetAttr\<close> and \<^verbatim>\<open>DelAttr\<close> write them.\<close>

record Rule =
  Kind :: string
  Attrs :: "string \<Rightarrow> string list option"

definition SetAttr :: "Rule \<Rightarrow> string \<Rightarrow> string list \<Rightarrow> Rule" where
  "SetAttr r key val = r\<lparr>Attrs := (Attrs r)(key := Some val)\<rparr>"

definition DelAttr :: "Rule \<Rightarrow> string \<Rightarrow> Rule" where
  "DelAttr r key = r\<lparr>Attrs := (Attrs r)(key := None)\<rparr>"

text \<open>
  What \<^verbatim>\<open>log.Print\<close> receives: a message formatted by \<^verbatim>\<open>Err\<close> or by
  \<^verbatim>\<open>Warn\<close>.
\<close>

datatype LogEntry = Err string | Warn string

text \<open>
  The two sets \<^verbatim>\<open>depSet\<close> and \<^verbatim>\<open>dataSet\<close> are Go maps from string to
  \<^verbatim>\<open>true\<close>; each is held as the list of its keys, and \<^verbatim>\<open>m[k] = true\<close>
  is \<open>setKey\<close>. The order of the list has no meaning in Go: a \<^verbatim>\<open>range\<close>
  over a map visits the keys in an unspecified order, see \<open>Resolve\<close>.
\<close>

definition setKey :: "string \<Rightarrow> string list \<Rightarrow> string list" where
  "setKey k m = (if k \<in> set m then m else m @ [k])"

record ResolveState =
  depSet :: "string list"
  dataSet :: "string list"
  logs :: "LogEntry list"

definition addDep :: "string \<Rightarrow> ResolveState \<Rightarrow> ResolveState" where
  "addDep k st = st\<lparr>depSet := setKey k (depSet st)\<rparr>"

definition addData :: "string \<Rightarrow> ResolveState \<Rightarrow> ResolveState" where
  "addData k st = st\<lparr>dataSet := setKey k (dataSet st)\<rparr>"

definition logPrint :: "LogEntry \<Rightarrow> ResolveState \<Rightarrow> ResolveState" where
  "logPrint e st = st\<lparr>logs := logs st @ [e]\<rparr>"

subsection \<open>isNpmDependency\<close>

definition BUILTINS :: "string list" where
  "BUILTINS =
     [''assert'', ''async_hooks'', ''buffer'', ''child_process'', ''cluster'', ''console'',
      ''constants'', ''crypto'', ''dgram'', ''dns'', ''domain'', ''events'', ''fs'', ''http'',
      ''http2'', ''https'', ''inspector'', ''module'', ''net'', ''os'', ''path'', ''perf_hooks'',
      ''process'', ''punycode'', ''querystring'', ''readline'', ''repl'', ''stream'',
      ''string_decoder'', ''timers'', ''tls'', ''trace_events'', ''tty'', ''url'', ''util'',
      ''v8'', ''vm'', ''wasi'', ''worker_threads'', ''zlib'']"

fun hasPrefix :: "string list \<Rightarrow> string \<Rightarrow> bool" where
  "hasPrefix [] x = False"
| "hasPrefix (suffix # suffixes) x = (if HasPrefix x suffix then True else hasPrefix suffixes x)"

text \<open>
  The loop of \<^verbatim>\<open>isNpmDependency\<close> that finds the package root, from byte
  index \<open>i\<close> on: at a slash, the text before it is the root unless that text is
  \<^verbatim>\<open>@types\<close>, in which case the scan goes on; without such a slash the root
  is the whole import. (Go's \<^verbatim>\<open>range\<close> over a string steps from rune to
  rune; a slash is never inside a multi-byte rune, so stepping by bytes finds the
  same slashes.)
\<close>

function packageRoot_loop :: "string \<Rightarrow> nat \<Rightarrow> string" where
  "packageRoot_loop imp i =
     (if i < length imp then
        (if imp ! i = CHR ''/'' then
           (let prefix = take i imp
            in if prefix = ''@types'' then packageRoot_loop imp (Suc i) else prefix)
         else packageRoot_loop imp (Suc i))
      else imp)"
  by pat_completeness auto
termination
  by (relation "measure (\<lambda>(imp, i). length imp - i)") auto

declare packageRoot_loop.simps [simp del]

definition packageRoot :: "string \<Rightarrow> string" where
  "packageRoot imp = packageRoot_loop imp 0"

definition prefixes :: "string list" where
  "prefixes = [''.'', ''/'', ''../'', ''~/'', ''@/'', ''~~/'']"

definition isNpmDependency :: "string \<Rightarrow> JsConfig \<Rightarrow> bool \<times> string \<times> bool" where
  "isNpmDependency imp jsConfig =
     (if hasPrefix prefixes imp then (False, [], False)
      else
        (case map_of (Dependencies jsConfig) (packageRoot imp) of
           Some npmLabel \<Rightarrow> (True, npmLabel, False)
         | None \<Rightarrow>
             (case map_of (DevDependencies jsConfig) (packageRoot imp) of
                Some npmLabel \<Rightarrow> (True, npmLabel, True)
              | None \<Rightarrow>
                  if HasPrefix imp ''@types'' then (False, [], False)
                  else if HasPrefix imp ''@'' then (True, DefaultNpmLabel jsConfig, False)
                  else (False, [], False))))"

subsection \<open>tryResolve\<close>

record resolveResult =
  label :: Label
  selfImport :: bool
  fileName :: string
  err :: "string option"

text \<open>
  The first part of \<^verbatim>\<open>tryResolve\<close>: the label that the override branch
  returns, or nothing when the function goes on to the index (no override, or
  an override that names the importing rule).
\<close>

definition overrideLabel :: "Config \<Rightarrow> string \<Rightarrow> Label \<Rightarrow> Label option" where
  "overrideLabel c target from =
     (case FindRuleWithOverride c target of
        None \<Rightarrow> None
      | Some override0 \<Rightarrow>
          (let override = (if Repo override0 = [] then override0\<lparr>Repo := Repo from\<rparr>
                           else override0)
           in if \<not> Equal override from then
                Some (if Repo override = Repo from then override\<lparr>Repo := []\<rparr> else override)
              else None))"

definition tryResolve :: "Config \<Rightarrow> RuleIndex \<Rightarrow> FileSystem \<Rightarrow> string \<Rightarrow> Label \<Rightarrow> resolveResult" where
  "tryResolve c ix fs target from =
     (case overrideLabel c target from of
        Some override \<Rightarrow> \<lparr>label = override, selfImport = False, fileName = [], err = None\<rparr>
      | None \<Rightarrow>
          (let matches = ix target
           in if length matches > 1 then
                \<lparr>label = NoLabel, selfImport = False, fileName = [],
                 err = Some (''multiple rules ('' @ String (findLabel (matches ! 0)) @ '' and ''
                             @ String (findLabel (matches ! 1)) @ '') provide '' @ target)\<rparr>
              else if length matches = 0 then
                (case fs (path_Join [RepoRoot c, target]) of
                   Some fileInfo \<Rightarrow>
                     if \<not> IsDir fileInfo then
                       \<lparr>label = NoLabel, selfImport = False, fileName = fileInfoName fileInfo,
                        err = None\<rparr>
                     else \<lparr>label = NoLabel, selfImport = False, fileName = [], err = None\<rparr>
                 | None \<Rightarrow> \<lparr>label = NoLabel, selfImport = False, fileName = [], err = None\<rparr>)
              else if IsSelfImport (matches ! 0) from then
                \<lparr>label = NoLabel, selfImport = True, fileName = [], err = None\<rparr>
              else
                \<lparr>label = findLabel (matches ! 0), selfImport = False, fileName = [],
                 err = None\<rparr>))"

subsection \<open>resolveWalkParents\<close>

text \<open>
  The inner loop over the extensions to try. It either returns from
  \<^verbatim>\<open>resolveWalkParents\<close> with the state it has reached, or runs out of
  extensions and hands back the list of paths tried so far.
\<close>

datatype probe = Returned ResolveState | Exhausted "string list"

fun probeExtensions ::
  "JS \<Rightarrow> Config \<Rightarrow> RuleIndex \<Rightarrow> FileSystem \<Rightarrow> Label \<Rightarrow> string \<Rightarrow> string list \<Rightarrow> string list
   \<Rightarrow> ResolveState \<Rightarrow> probe" where
  "probeExtensions lang c ix fs from target [] tries st = Exhausted tries"
| "probeExtensions lang c ix fs from target (ext # exts) tries st =
     (let filePath = target @ ext;
          tries' = tries @ [filePath];
          resolveResult = tryResolve c ix fs filePath from
      in case err resolveResult of
           Some e \<Rightarrow> Returned (logPrint (Err e) st)
         | None \<Rightarrow>
             if selfImport resolveResult then Returned st
             else if label resolveResult \<noteq> NoLabel then
               (let dep = String (Rel (label resolveResult) (Repo from) (Pkg from))
                in if \<not> isWebAsset lang (JsConfigs c (Pkg from)) filePath
                   then Returned (addDep dep st)
                   else Returned (addData dep st))
             else if fileName resolveResult \<noteq> [] then
               Returned (addData (''//'' @ path_Dir target @ '':'' @ fileName resolveResult) st)
             else probeExtensions lang c ix fs from target exts tries' st)"

text \<open>The rewriting of the name at the head of each round of the walk.\<close>

definition walkName :: "string \<Rightarrow> string" where
  "walkName name =
     (let name1 = (if name = ''package'' then ''package.json'' else name)
      in if name1 = ''.'' then ''index'' else name1)"

definition extraExtensionsToTry :: "JS \<Rightarrow> JsConfig \<Rightarrow> string \<Rightarrow> string list" where
  "extraExtensionsToTry lang jsConfig target =
     (if \<not> isWebAsset lang jsConfig target then [[]] @ tsExtensions lang @ jsExtensions lang
      else [[]])"

text \<open>What the walk logs and returns when it gives up at the root.\<close>

definition notFound :: "JsConfig \<Rightarrow> Label \<Rightarrow> string \<Rightarrow> string list \<Rightarrow> ResolveState \<Rightarrow> ResolveState" where
  "notFound jsConfig from name tries st =
     (let st1 = (if \<not> Quiet jsConfig
                 then logPrint (Err (''['' @ String (Abs from (Repo from) (Pkg from))
                                      @ ''] import '' @ name @ '' not found'')) st
                 else st)
      in if Verbose jsConfig
         then st1\<lparr>logs := logs st1 @ [Warn (''tried node_modules/'' @ name)]
                              @ map (\<lambda>try. Warn (''tried '' @ try)) tries\<rparr>
         else st1)"

text \<open>
  The outer loop, one round for each value of \<^verbatim>\<open>parents\<close>. The loop has no
  bound of its own, so the function is partial: \<open>None\<close> is a walk that never
  returns.
\<close>

partial_function (option) resolveWalkParents_loop ::
  "JS \<Rightarrow> Config \<Rightarrow> RuleIndex \<Rightarrow> FileSystem \<Rightarrow> Label \<Rightarrow> string \<Rightarrow> string \<Rightarrow> string list
   \<Rightarrow> ResolveState \<Rightarrow> ResolveState option" where
  "resolveWalkParents_loop lang c ix fs from name parents tries st =
     (let jsConfig = JsConfigs c (Pkg from);
          name' = walkName name;
          localDir = path_Join [Pkg from, parents];
          target = path_Join [localDir, name']
      in case probeExtensions lang c ix fs from target
                (extraExtensionsToTry lang jsConfig target) tries st of
           Returned st' \<Rightarrow> Some st'
         | Exhausted tries' \<Rightarrow>
             if JSRoot jsConfig = localDir \<or> localDir = ''.''
             then Some (notFound jsConfig from name' tries' st)
             else resolveWalkParents_loop lang c ix fs from name' (parents @ ''../'') tries' st)"

declare resolveWalkParents_loop.simps [code]

definition resolveWalkParents ::
  "JS \<Rightarrow> Config \<Rightarrow> RuleIndex \<Rightarrow> FileSystem \<Rightarrow> Label \<Rightarrow> string \<Rightarrow> ResolveState
   \<Rightarrow> ResolveState option" where
  "resolveWalkParents lang c ix fs from name st =
     resolveWalkParents_loop lang c ix fs from name [] [] st"

subsection \<open>Resolve\<close>

text \<open>The alias rewriting at the head of the loop over the imports.\<close>

fun findAlias :: "(string \<times> string) list \<Rightarrow> string \<Rightarrow> string" where
  "findAlias [] prefix = []"
| "findAlias ((From, To) # impAliases) prefix =
     (if From = prefix then To else findAlias impAliases prefix)"

definition fixAliases :: "JsConfig \<Rightarrow> string \<Rightarrow> string" where
  "fixAliases jsConfig name =
     (let match = ImportAliasPattern jsConfig name
      in if length match > 0 then
           (let prefix = match ! 0;
                alias = findAlias (ImportAliases jsConfig) prefix
            in alias @ TrimPrefix name prefix)
         else name)"

text \<open>
  The branch of the loop taken for an npm dependency: \<open>name\<close> is the import
  after alias rewriting, \<open>npmLabel\<close> and \<open>devDep\<close> come from
  \<^verbatim>\<open>isNpmDependency\<close>.
\<close>

definition npmName :: "string \<Rightarrow> string" where
  "npmName name =
     (let s = splitOn CHR ''/'' name;
          name0 = s ! 0
      in if HasPrefix name0 ''@'' \<and> length s \<ge> 2 then name0 @ ''/'' @ s ! 1 else name0)"

definition typesDependency :: "JsConfig \<Rightarrow> string \<Rightarrow> string \<Rightarrow> ResolveState \<Rightarrow> ResolveState" where
  "typesDependency jsConfig kind name st =
     (if LookupTypes jsConfig \<and> kind = ''ts_project'' then
        (case isNpmDependency (''@types/'' @ name) jsConfig of
           (typesFound, npmLabel, _) \<Rightarrow>
             if typesFound then addDep (npmLabel @ ''@types/'' @ name) st else st)
      else st)"

definition npmDependency ::
  "JsConfig \<Rightarrow> string \<Rightarrow> string \<Rightarrow> string \<Rightarrow> bool \<Rightarrow> ResolveState \<Rightarrow> ResolveState" where
  "npmDependency jsConfig kind name npmLabel devDep st =
     (let name' = npmName name;
          st1 = addDep (npmLabel @ name') st;
          st2 = (if \<not> devDep then addData (npmLabel @ name') st1 else st1)
      in typesDependency jsConfig kind name' st2)"

text \<open>
  One round of the loop over \<^verbatim>\<open>imports.set\<close>. \<open>packageJSON\<close> is the label
  computed before the loop; the round has no result when the walk through the
  parent directories never returns.
\<close>

definition resolveImport ::
  "JS \<Rightarrow> Config \<Rightarrow> RuleIndex \<Rightarrow> FileSystem \<Rightarrow> string \<Rightarrow> Label \<Rightarrow> string \<Rightarrow> string
   \<Rightarrow> ResolveState \<Rightarrow> ResolveState option" where
  "resolveImport lang c ix fs kind from packageJSON name0 st =
     (let jsConfig = JsConfigs c (Pkg from)
      in if name0 = ''package'' \<or> name0 = ''package.json'' then Some (addDep packageJSON st)
         else
           (let name = fixAliases jsConfig name0
            in case isNpmDependency name jsConfig of
                 (isNpm, npmLabel, devDep) \<Rightarrow>
                   if isNpm then Some (npmDependency jsConfig kind name npmLabel devDep st)
                   else if HasPrefix name ''node:'' then
                     Some (typesDependency jsConfig kind ''node'' st)
                   else if name \<in> set BUILTINS then
                     Some (typesDependency jsConfig kind name st)
                   else
                     (let resolveResult = tryResolve c ix fs name from
                      in if err resolveResult = None \<and> \<not> selfImport resolveResult
                            \<and> label resolveResult \<noteq> NoLabel
                         then Some (addDep (String (Rel (label resolveResult) (Repo from) (Pkg from))) st)
                         else resolveWalkParents lang c ix fs from name st)))"

fun resolveImports ::
  "JS \<Rightarrow> Config \<Rightarrow> RuleIndex \<Rightarrow> FileSystem \<Rightarrow> string \<Rightarrow> Label \<Rightarrow> string \<Rightarrow> string list
   \<Rightarrow> ResolveState \<Rightarrow> ResolveState option" where
  "resolveImports lang c ix fs kind from packageJSON [] st = Some st"
| "resolveImports lang c ix fs kind from packageJSON (name # names) st =
     (case resolveImport lang c ix fs kind from packageJSON name st of
        None \<Rightarrow> None
      | Some st' \<Rightarrow> resolveImports lang c ix fs kind from packageJSON names st')"

text \<open>
  The additions for a jest test: the loop over the dev-dependency table, then
  the \<^verbatim>\<open>package_json\<close> label of the JS root.
\<close>

fun jestDevDependencies :: "(string \<times> string) list \<Rightarrow> ResolveState \<Rightarrow> ResolveState" where
  "jestDevDependencies [] st = st"
| "jestDevDependencies ((name, npmLabel) # rest) st =
     (if name = ''jest-cli'' \<or> name = ''jest-junit'' then jestDevDependencies rest st
      else
        (let st1 = (if HasPrefix name ''@types/jest'' then addDep (npmLabel @ name) st else st);
             st2 = (if HasPrefix name ''jest''
                    then addData (npmLabel @ name) (addDep (npmLabel @ name) st1)
                    else st1)
         in jestDevDependencies rest st2))"

definition jestDependencies :: "JS \<Rightarrow> Config \<Rightarrow> string \<Rightarrow> Label \<Rightarrow> ResolveState \<Rightarrow> ResolveState" where
  "jestDependencies lang c kind from st =
     (let jsConfig = JsConfigs c (Pkg from)
      in if kind = getKind lang c ''jest_test'' then
           (let st1 = jestDevDependencies (DevDependencies jsConfig) st;
                packageLocation = (if JSRoot jsConfig = ''.'' then [] else JSRoot jsConfig)
            in addData (''//'' @ packageLocation @ '':package_json'') st1)
         else st)"

text \<open>
  The end of \<^verbatim>\<open>Resolve\<close>: each set is copied into a slice by a
  \<^verbatim>\<open>range\<close> over the map and the slice is written onto the rule, or the
  attribute is deleted when the slice is empty. Go does not fix the order in
  which \<^verbatim>\<open>range\<close> visits the keys of a map; \<open>rangeOrder\<close> is the order
  taken by this run.
\<close>

definition renderAttr :: "(string list \<Rightarrow> string list) \<Rightarrow> string \<Rightarrow> string list \<Rightarrow> Rule \<Rightarrow> Rule" where
  "renderAttr rangeOrder key m r =
     (let deps = rangeOrder m
      in if length deps > 0 then SetAttr r key deps else DelAttr r key)"

text \<open>
  The label used for an import of \<^verbatim>\<open>package.json\<close>, from the result of the
  lookup at the head of \<^verbatim>\<open>Resolve\<close>.
\<close>

definition packageJSONLabel :: "resolveResult \<Rightarrow> Label \<Rightarrow> string" where
  "packageJSONLabel packageResolveResult from =
     (if label packageResolveResult \<noteq> NoLabel
      then String (Abs (label packageResolveResult) (Repo from) (Pkg from))
      else ''//:package'')"

text \<open>
  The two sets as they stand when the loop over the imports and the additions
  for a jest test are done, starting from empty maps.
\<close>

definition resolveSets ::
  "JS \<Rightarrow> Config \<Rightarrow> RuleIndex \<Rightarrow> FileSystem \<Rightarrow> string \<Rightarrow> Label \<Rightarrow> string \<Rightarrow> string list
   \<Rightarrow> ResolveState option" where
  "resolveSets lang c ix fs kind from packageJSON imports =
     (case resolveImports lang c ix fs kind from packageJSON imports
             \<lparr>depSet = [], dataSet = [], logs = []\<rparr> of
        None \<Rightarrow> None
      | Some st \<Rightarrow> Some (jestDependencies lang c kind from st))"

text \<open>
  \<^verbatim>\<open>Resolve\<close> itself. \<open>imports\<close> is the key set of \<^verbatim>\<open>imports.set\<close> in the
  order this run visits it; \<open>depsOrder\<close> and \<open>dataOrder\<close> are the orders taken
  by the two \<^verbatim>\<open>range\<close> loops at the end. The result is the rule after the
  call and what was logged, or \<open>None\<close> when the call never returns.
\<close>

definition Resolve ::
  "(string list \<Rightarrow> string list) \<Rightarrow> (string list \<Rightarrow> string list) \<Rightarrow> JS \<Rightarrow> Config
   \<Rightarrow> RuleIndex \<Rightarrow> FileSystem \<Rightarrow> Rule \<Rightarrow> string list \<Rightarrow> Label
   \<Rightarrow> (Rule \<times> LogEntry list) option" where
  "Resolve depsOrder dataOrder lang c ix fs r imports from =
     (let packageResolveResult = tryResolve c ix fs ''package.json'' from
      in case err packageResolveResult of
           Some e \<Rightarrow> Some (r, [Err e])
         | None \<Rightarrow>
             if selfImport packageResolveResult then Some (r, [])
             else
               (case resolveSets lang c ix fs (Kind r) from
                       (packageJSONLabel packageResolveResult from) imports of
                  None \<Rightarrow> None
                | Some st \<Rightarrow>
                    Some (renderAttr dataOrder ''data'' (dataSet st)
                            (renderAttr depsOrder ''deps'' (depSet st) r),
                          logs st)))"

subsection \<open>The package root, segment by segment\<close>

text \<open>
  A second description of the package root that \<^verbatim>\<open>isNpmDependency\<close> looks
  up, to be compared with the loop above: the text before the first slash;
  when that text is \<^verbatim>\<open>@types\<close> and a slash follows it, the text before the
  second slash.
\<close>

definition firstSegment :: "string \<Rightarrow> string" where
  "firstSegment s = takeWhile (\<lambda>ch. ch \<noteq> CHR ''/'') s"

definition rootBySegments :: "string \<Rightarrow> string" where
  "rootBySegments imp =
     (if firstSegment imp = ''@types'' \<and> imp \<noteq> ''@types''
      then ''@types/'' @ firstSegment (drop 7 imp)
      else firstSegment imp)"

subsection \<open>Example inputs\<close>

text \<open>
  A small repository used where a statement is checked on a concrete input: the
  importing rule \<^verbatim>\<open>//pkg:lib\<close>, three other rules, the usual extension
  tables, a dependency table with \<^verbatim>\<open>lodash\<close> and a dev-dependency table
  with \<^verbatim>\<open>jest\<close> and \<^verbatim>\<open>typescript\<close>.
\<close>

definition exLang :: JS where
  "exLang = \<lparr>tsExtensions = [''.ts'', ''.tsx''], jsExtensions = [''.js'', ''.jsx''],
             isWebAsset = (\<lambda>jsConfig p. False), getKind = (\<lambda>c kind. kind)\<rparr>"

definition exJsConfig :: JsConfig where
  "exJsConfig =
     \<lparr>Dependencies = [(''lodash'', ''@npm//'')],
      DevDependencies = [(''jest'', ''@npm//''), (''typescript'', ''@npm//'')],
      LookupTypes = False, ImportAliases = [], ImportAliasPattern = (\<lambda>name. []),
      JSRoot = ''.'', DefaultNpmLabel = ''@default//'', Quiet = False, Verbose = False\<rparr>"

definition exConfig :: Config where
  "exConfig = \<lparr>RepoRoot = ''/repo'', JsConfigs = (\<lambda>pkg. exJsConfig),
               FindRuleWithOverride = (\<lambda>target. None)\<rparr>"

definition exFrom :: Label where
  "exFrom = \<lparr>Repo = [], Pkg = ''pkg'', Name = ''lib'', Relative = False\<rparr>"

definition exA1 :: FindResult where
  "exA1 = \<lparr>findLabel = \<lparr>Repo = [], Pkg = ''pkg'', Name = ''a1'', Relative = False\<rparr>, Embeds = []\<rparr>"

definition exA2 :: FindResult where
  "exA2 = \<lparr>findLabel = \<lparr>Repo = [], Pkg = ''pkg'', Name = ''a2'', Relative = False\<rparr>, Embeds = []\<rparr>"

definition exB :: FindResult where
  "exB = \<lparr>findLabel = \<lparr>Repo = [], Pkg = ''other'', Name = ''b'', Relative = False\<rparr>, Embeds = []\<rparr>"

definition exEmptyIndex :: RuleIndex where
  "exEmptyIndex = (\<lambda>target. [])"

definition exNoFiles :: FileSystem where
  "exNoFiles = (\<lambda>p. None)"

definition exState :: ResolveState where
  "exState = \<lparr>depSet = [], dataSet = [], logs = []\<rparr>"

definition exScopedConfig :: JsConfig where
  "exScopedConfig = exJsConfig\<lparr>Dependencies := [(''@foo/bar'', ''@npm//''), (''@foo'', ''@scope//'')],
     DevDependencies := [(''@types/node'', ''@npm//'')]\<rparr>"

definition exRule :: "string \<Rightarrow> Rule" where
  "exRule kind = \<lparr>Kind = kind, Attrs = (\<lambda>key. if key = ''deps'' then Some [''//old:dep''] else None)\<rparr>"

text \<open>
  Overrides for the path \<^verbatim>\<open>pkg/x\<close>: one naming another rule, one naming the
  importing rule itself; indexes with one owner, with three owners of one
  path, with the importing rule as the owner, and with two owners of
  \<^verbatim>\<open>package.json\<close>; a rule in the root package named \<^verbatim>\<open>package\<close> and one
  named \<^verbatim>\<open>lib\<close>.
\<close>

definition exOverrideConfig :: Config where
  "exOverrideConfig =
     exConfig\<lparr>FindRuleWithOverride := (\<lambda>target. if target = ''pkg/x'' then Some (findLabel exB) else None)\<rparr>"

definition exSelfOverrideConfig :: Config where
  "exSelfOverrideConfig =
     exConfig\<lparr>FindRuleWithOverride := (\<lambda>target. if target = ''pkg/x'' then Some exFrom else None)\<rparr>"

definition exIndexX :: RuleIndex where
  "exIndexX = (\<lambda>target. if target = ''pkg/x'' then [exB] else [])"

definition exA3 :: FindResult where
  "exA3 = \<lparr>findLabel = \<lparr>Repo = [], Pkg = ''pkg'', Name = ''a3'', Relative = False\<rparr>, Embeds = []\<rparr>"

definition exIndexAB :: RuleIndex where
  "exIndexAB = (\<lambda>target. if target = ''pkg/a'' then [exA1, exA2, exA3]
                           else if target = ''pkg/b'' then [exB] else [])"

definition exSelf :: FindResult where
  "exSelf = \<lparr>findLabel = exFrom, Embeds = []\<rparr>"

definition exIndexSelf :: RuleIndex where
  "exIndexSelf = (\<lambda>target. if target = ''pkg/lib.ts'' then [exSelf] else [])"

definition exIndexManifest :: RuleIndex where
  "exIndexManifest = (\<lambda>target. if target = ''package.json'' then [exA1, exA2] else [])"

definition exRootPackage :: Label where
  "exRootPackage = \<lparr>Repo = [], Pkg = [], Name = ''package'', Relative = False\<rparr>"

definition exRootFrom :: Label where
  "exRootFrom = \<lparr>Repo = [], Pkg = [], Name = ''lib'', Relative = False\<rparr>"

subsection \<open>Notions used in the statements\<close>

text \<open>
  What an attribute holds after \<open>renderAttr\<close> has written a list onto it:
  nothing when the list is empty, else the list.
\<close>

definition attrValue :: "string list \<Rightarrow> string list option" where
  "attrValue deps = (if deps = [] then None else Some deps)"

text \<open>
  The value of \<^verbatim>\<open>parents\<close> after \<open>k\<close> rounds of the walk, and a path
  element that \<^verbatim>\<open>path.Clean\<close> keeps as it is.
\<close>

definition parentSteps :: "nat \<Rightarrow> string" where
  "parentSteps k = concat (replicate k ''../'')"

definition properSegment :: "string \<Rightarrow> bool" where
  "properSegment seg = (seg \<noteq> [] \<and> CHR ''/'' \<notin> set seg \<and> seg \<noteq> ''.'' \<and> seg \<noteq> ''..'')"

section \<open>Properties\<close>

subsection \<open>The two sets\<close>

lemma set_setKey [simp]: "set (setKey k m) = insert k (set m)"
  by (auto simp: setKey_def)

lemma distinct_setKey [simp]: "distinct (setKey k m) = distinct m"
  by (auto simp: setKey_def)

lemma addDep_fields [simp]:
  "depSet (addDep k st) = setKey k (depSet st)"
  "dataSet (addDep k st) = dataSet st"
  "logs (addDep k st) = logs st"
  by (simp_all add: addDep_def)

lemma addData_fields [simp]:
  "depSet (addData k st) = depSet st"
  "dataSet (addData k st) = setKey k (dataSet st)"
  "logs (addData k st) = logs st"
  by (simp_all add: addData_def)

lemma logPrint_fields [simp]:
  "depSet (logPrint e st) = depSet st"
  "dataSet (logPrint e st) = dataSet st"
  "logs (logPrint e st) = logs st @ [e]"
  by (simp_all add: logPrint_def)

lemma typesDependency_dataSet [simp]: "dataSet (typesDependency cfg kind name st) = dataSet st"
  by (simp add: typesDependency_def split: prod.splits)

lemma typesDependency_depSet:
  "set (depSet st) \<subseteq> set (depSet (typesDependency cfg kind name st))"
  by (auto simp: typesDependency_def split: prod.splits)

lemma typesDependency_logs [simp]: "logs (typesDependency cfg kind name st) = logs st"
  by (simp add: typesDependency_def split: prod.splits)

lemma npmDependency_dataSet:
  "dataSet (npmDependency cfg kind name npmLabel devDep st) =
     (if devDep then dataSet st else setKey (npmLabel @ npmName name) (dataSet st))"
  by (simp add: npmDependency_def Let_def)

lemma npmDependency_depSet:
  "npmLabel @ npmName name \<in> set (depSet (npmDependency cfg kind name npmLabel devDep st))"
  using typesDependency_depSet[of "if devDep then addDep (npmLabel @ npmName name) st
          else addData (npmLabel @ npmName name) (addDep (npmLabel @ npmName name) st)"
        cfg kind "npmName name"]
  by (auto simp: npmDependency_def Let_def split: if_splits)

lemma resolveImport_npm:
  assumes "name0 \<noteq> ''package''" "name0 \<noteq> ''package.json''"
    and "isNpmDependency (fixAliases (JsConfigs c (Pkg from)) name0) (JsConfigs c (Pkg from))
         = (True, npmLabel, devDep)"
  shows "resolveImport lang c ix fs kind from packageJSON name0 st =
     Some (npmDependency (JsConfigs c (Pkg from)) kind
             (fixAliases (JsConfigs c (Pkg from)) name0) npmLabel devDep st)"
  using assms by (simp add: resolveImport_def Let_def)

subsection \<open>Labels of external packages\<close>

text \<open>
  Claim C10. In the round of the loop taken for an npm dependency, every label
  that enters the runtime/data set is also in the compile-time set after the
  round: the insertion into \<^verbatim>\<open>dataSet\<close> comes with an insertion of the same
  label into \<^verbatim>\<open>depSet\<close>.
\<close>

theorem npm_data_label_is_dep:
  assumes "name0 \<noteq> ''package''" "name0 \<noteq> ''package.json''"
    and "fst (isNpmDependency (fixAliases (JsConfigs c (Pkg from)) name0)
                (JsConfigs c (Pkg from)))"
    and "resolveImport lang c ix fs kind from packageJSON name0 st = Some st'"
  shows "set (dataSet st') - set (dataSet st) \<subseteq> set (depSet st')"
proof -
  obtain npmLabel devDep where
    npm: "isNpmDependency (fixAliases (JsConfigs c (Pkg from)) name0) (JsConfigs c (Pkg from))
          = (True, npmLabel, devDep)"
    using assms(3)
    by (cases "isNpmDependency (fixAliases (JsConfigs c (Pkg from)) name0)
                 (JsConfigs c (Pkg from))") auto
  from resolveImport_npm[OF assms(1,2) npm] assms(4)
  have st': "st' = npmDependency (JsConfigs c (Pkg from)) kind
                     (fixAliases (JsConfigs c (Pkg from)) name0) npmLabel devDep st"
    by simp
  show ?thesis
    unfolding st' using npmDependency_depSet
    by (auto simp: npmDependency_dataSet split: if_splits)
qed

theorem npm_data_label_is_dep_witness:
  "resolveImport exLang exConfig exEmptyIndex exNoFiles ''ts_project'' exFrom ''//:package''
     ''lodash/fp'' exState
   = Some \<lparr>depSet = [''@npm//lodash''], dataSet = [''@npm//lodash''], logs = []\<rparr>
   \<and> set [''@npm//lodash''] - set (dataSet exState) \<subseteq> set [''@npm//lodash'']"
proof -
  have h1: "''lodash/fp'' \<noteq> ''package''" and h2: "''lodash/fp'' \<noteq> ''package.json''"
    by simp_all
  have h3: "fst (isNpmDependency (fixAliases (JsConfigs exConfig (Pkg exFrom)) ''lodash/fp'')
                   (JsConfigs exConfig (Pkg exFrom)))"
    by code_simp
  have h4: "resolveImport exLang exConfig exEmptyIndex exNoFiles ''ts_project'' exFrom
              ''//:package'' ''lodash/fp'' exState
            = Some \<lparr>depSet = [''@npm//lodash''], dataSet = [''@npm//lodash''], logs = []\<rparr>"
    by code_simp
  from npm_data_label_is_dep[OF h1 h2 h3 h4] h4 show ?thesis by simp
qed

subsection \<open>The package root\<close>

lemma packageRoot_loop_skip:
  "i \<le> j \<Longrightarrow> j \<le> length imp \<Longrightarrow> (\<forall>k. i \<le> k \<and> k < j \<longrightarrow> imp ! k \<noteq> CHR ''/'')
   \<Longrightarrow> packageRoot_loop imp i = packageRoot_loop imp j"
proof (induction "j - i" arbitrary: i)
  case 0
  then show ?case by simp
next
  case (Suc n)
  then have "i < j" "i < length imp" "imp ! i \<noteq> CHR ''/''" by auto
  then have "packageRoot_loop imp i = packageRoot_loop imp (Suc i)"
    by (subst packageRoot_loop.simps) simp
  also have "\<dots> = packageRoot_loop imp j"
    using Suc by (intro Suc.hyps) auto
  finally show ?case .
qed

lemma packageRoot_loop_end: "packageRoot_loop imp (length imp) = imp"
  by (subst packageRoot_loop.simps) simp

lemma packageRoot_loop_slash:
  "j < length imp \<Longrightarrow> imp ! j = CHR ''/'' \<Longrightarrow>
   packageRoot_loop imp j =
     (if take j imp = ''@types'' then packageRoot_loop imp (Suc j) else take j imp)"
  by (subst packageRoot_loop.simps) (simp add: Let_def)

lemma takeWhile_nth_drop:
  "k < length (takeWhile P (drop i xs)) \<Longrightarrow> P (xs ! (i + k))"
proof -
  assume a: "k < length (takeWhile P (drop i xs))"
  then have "takeWhile P (drop i xs) ! k = drop i xs ! k"
    by (rule takeWhile_nth)
  moreover have "P (takeWhile P (drop i xs) ! k)"
    using a by (meson nth_mem set_takeWhileD)
  moreover have "i + k < length xs"
    using a length_takeWhile_le[of P "drop i xs"] by simp
  ultimately show ?thesis by simp
qed

lemma packageRoot_loop_segment:
  assumes "i \<le> length imp"
  defines "j \<equiv> i + length (takeWhile (\<lambda>ch. ch \<noteq> CHR ''/'') (drop i imp))"
  shows "packageRoot_loop imp i =
     (if j = length imp then imp
      else if take j imp = ''@types'' then packageRoot_loop imp (Suc j) else take j imp)"
proof -
  have jle: "j \<le> length imp"
    using length_takeWhile_le[of "\<lambda>ch. ch \<noteq> CHR ''/''" "drop i imp"] assms by simp
  have noslash: "\<forall>k. i \<le> k \<and> k < j \<longrightarrow> imp ! k \<noteq> CHR ''/''"
  proof (intro allI impI)
    fix k assume "i \<le> k \<and> k < j"
    then have "k - i < length (takeWhile (\<lambda>ch. ch \<noteq> CHR ''/'') (drop i imp))"
      by (simp add: j_def) linarith
    from takeWhile_nth_drop[OF this] \<open>i \<le> k \<and> k < j\<close> show "imp ! k \<noteq> CHR ''/''" by simp
  qed
  have skip: "packageRoot_loop imp i = packageRoot_loop imp j"
    by (rule packageRoot_loop_skip) (use jle noslash in \<open>auto simp: j_def\<close>)
  show ?thesis
  proof (cases "j = length imp")
    case True
    then show ?thesis using skip packageRoot_loop_end by simp
  next
    case False
    then have lt: "j < length imp" using jle by simp
    have "j - i = length (takeWhile (\<lambda>ch. ch \<noteq> CHR ''/'') (drop i imp))" by (simp add: j_def)
    moreover have "j - i < length (drop i imp)" using lt assms by (simp add: j_def)
    ultimately have "\<not> (drop i imp ! (j - i) \<noteq> CHR ''/'')"
      using nth_length_takeWhile[of "\<lambda>ch. ch \<noteq> CHR ''/''" "drop i imp"] by simp
    then have "imp ! j = CHR ''/''" using lt assms by (simp add: j_def)
    with lt skip show ?thesis using packageRoot_loop_slash by simp
  qed
qed

lemma firstSegment_take: "firstSegment s = take (length (firstSegment s)) s"
  unfolding firstSegment_def by (rule takeWhile_eq_take)

lemma firstSegment_slash:
  "length (firstSegment s) < length s \<Longrightarrow> s ! length (firstSegment s) = CHR ''/''"
  unfolding firstSegment_def
  using nth_length_takeWhile[of "\<lambda>ch. ch \<noteq> CHR ''/''" s] by simp

lemma firstSegment_all: "length (firstSegment s) = length s \<Longrightarrow> firstSegment s = s"
  using firstSegment_take[of s] by simp

lemma packageRoot_rootBySegments: "packageRoot imp = rootBySegments imp"
proof -
  define j where "j = length (firstSegment imp)"
  have jle: "j \<le> length imp"
    unfolding j_def firstSegment_def by (rule length_takeWhile_le)
  have tk: "take j imp = firstSegment imp"
    unfolding j_def using firstSegment_take[of imp] by simp
  have first: "packageRoot imp =
     (if j = length imp then imp
      else if firstSegment imp = ''@types'' then packageRoot_loop imp (Suc j)
           else firstSegment imp)"
    unfolding packageRoot_def
    using packageRoot_loop_segment[of 0 imp] tk by (simp add: j_def firstSegment_def)
  show ?thesis
  proof (cases "j = length imp")
    case True
    then have "firstSegment imp = imp" using firstSegment_all by (simp add: j_def)
    then show ?thesis using first True by (simp add: rootBySegments_def)
  next
    case False
    then have lt: "j < length imp" using jle by simp
    show ?thesis
    proof (cases "firstSegment imp = ''@types''")
      case False
      then show ?thesis using first \<open>j \<noteq> length imp\<close> by (simp add: rootBySegments_def)
    next
      case True
      then have j6: "j = 6" by (simp add: j_def)
      have ne: "imp \<noteq> ''@types''" using lt j6 by auto
      have "imp ! 6 = CHR ''/''" using firstSegment_slash[of imp] lt j6 by (simp add: j_def)
      then have t7: "take 7 imp = ''@types/''"
        using tk True j6 lt take_Suc_conv_app_nth[of 6 imp] by simp
      have l7: "7 \<le> length imp" using lt j6 by simp
      define j2 where "j2 = 7 + length (firstSegment (drop 7 imp))"
      have j2le: "j2 \<le> length imp"
        using length_takeWhile_le[of "\<lambda>ch. ch \<noteq> CHR ''/''" "drop 7 imp"] l7
        by (simp add: j2_def firstSegment_def)
      have second: "packageRoot_loop imp 7 =
         (if j2 = length imp then imp
          else if take j2 imp = ''@types'' then packageRoot_loop imp (Suc j2) else take j2 imp)"
        using packageRoot_loop_segment[OF l7] by (simp add: j2_def firstSegment_def)
      have tk2: "take j2 imp = ''@types/'' @ firstSegment (drop 7 imp)"
      proof -
        have "take j2 imp = take 7 imp @ take (j2 - 7) (drop 7 imp)"
          unfolding j2_def by (simp add: take_add)
        also have "take (j2 - 7) (drop 7 imp) = firstSegment (drop 7 imp)"
          using firstSegment_take[of "drop 7 imp"] by (simp add: j2_def)
        finally show ?thesis using t7 by simp
      qed
      have "packageRoot_loop imp 7 = ''@types/'' @ firstSegment (drop 7 imp)"
      proof (cases "j2 = length imp")
        case True
        then have "take j2 imp = imp" by simp
        then show ?thesis using second True tk2 by simp
      next
        case False
        then show ?thesis using second tk2 by simp
      qed
      then show ?thesis using first \<open>j \<noteq> length imp\<close> True j6 ne by (simp add: rootBySegments_def)
    qed
  qed
qed


lemma packageRoot_is_prefix: "take (length (packageRoot imp)) imp = packageRoot imp"
proof (cases "firstSegment imp = ''@types'' \<and> imp \<noteq> ''@types''")
  case False
  then have "packageRoot imp = firstSegment imp"
    by (auto simp: packageRoot_rootBySegments rootBySegments_def)
  then show ?thesis using firstSegment_take[of imp] by simp
next
  case True
  then have l6: "length (firstSegment imp) = 6" by simp
  have lt: "6 < length imp"
  proof (rule ccontr)
    assume "\<not> 6 < length imp"
    moreover have "length (firstSegment imp) \<le> length imp"
      unfolding firstSegment_def by (rule length_takeWhile_le)
    ultimately have "length (firstSegment imp) = length imp" using l6 by simp
    then have "firstSegment imp = imp" by (rule firstSegment_all)
    with True show False by simp
  qed
  have "take (length (firstSegment imp)) imp = firstSegment imp"
    by (rule firstSegment_take[symmetric])
  then have "take 6 imp = firstSegment imp" unfolding l6 .
  then have t6: "take 6 imp = ''@types''" using True by simp
  have "imp ! 6 = CHR ''/''" using firstSegment_slash[of imp] lt l6 by simp
  then have t7: "take 7 imp = ''@types/''"
    using t6 lt take_Suc_conv_app_nth[of 6 imp] by simp
  have root: "packageRoot imp = ''@types/'' @ firstSegment (drop 7 imp)"
    using True by (simp add: packageRoot_rootBySegments rootBySegments_def)
  have "take (7 + length (firstSegment (drop 7 imp))) imp
        = take 7 imp @ take (length (firstSegment (drop 7 imp))) (drop 7 imp)"
    by (simp add: take_add)
  also have "\<dots> = ''@types/'' @ firstSegment (drop 7 imp)"
    using t7 firstSegment_take[of "drop 7 imp"] by simp
  finally have F: "take (7 + length (firstSegment (drop 7 imp))) imp
                   = ''@types/'' @ firstSegment (drop 7 imp)" .
  have len: "length (packageRoot imp) = 7 + length (firstSegment (drop 7 imp))"
    using root by simp
  have "take (length (packageRoot imp)) imp
        = take (7 + length (firstSegment (drop 7 imp))) imp"
    by (simp only: len)
  also note F
  also note root[symmetric]
  finally show ?thesis .
qed

lemma packageRoot_at: "HasPrefix (packageRoot imp) ''@'' \<Longrightarrow> HasPrefix imp ''@''"
proof -
  assume a: "HasPrefix (packageRoot imp) ''@''"
  then obtain r where r: "packageRoot imp = CHR ''@'' # r"
    by (cases "packageRoot imp") (auto simp: HasPrefix_def)
  with packageRoot_is_prefix[of imp] have "take (Suc (length r)) imp = CHR ''@'' # r" by simp
  then show ?thesis by (cases imp) (auto simp: HasPrefix_def)
qed

lemma hasPrefix_at:
  "HasPrefix imp ''@'' \<Longrightarrow> hasPrefix prefixes imp = HasPrefix imp ''@/''"
  by (cases imp) (auto simp: prefixes_def HasPrefix_def)

text \<open>
  Claim C4, as the code has it. The package root that \<^verbatim>\<open>isNpmDependency\<close>
  looks up, first in the dependency table and then in the dev-dependency table,
  is the text before the first slash of the import, except that after a leading
  \<^verbatim>\<open>@types\<close> segment it is the text before the second slash. A scoped import
  such as \<^verbatim>\<open>@foo/bar/x\<close> is therefore looked up under its scope \<^verbatim>\<open>@foo\<close>
  alone, and \<^verbatim>\<open>@types/node/fs\<close> under \<^verbatim>\<open>@types/node\<close>.
\<close>

theorem isNpmDependency_root_lookup:
  "packageRoot imp = rootBySegments imp \<and>
   (\<not> hasPrefix prefixes imp \<longrightarrow>
      (\<forall>npmLabel. map_of (Dependencies jsConfig) (rootBySegments imp) = Some npmLabel \<longrightarrow>
         isNpmDependency imp jsConfig = (True, npmLabel, False)) \<and>
      (\<forall>npmLabel. map_of (Dependencies jsConfig) (rootBySegments imp) = None \<and>
          map_of (DevDependencies jsConfig) (rootBySegments imp) = Some npmLabel \<longrightarrow>
         isNpmDependency imp jsConfig = (True, npmLabel, True)))"
proof (intro conjI impI allI)
  show root: "packageRoot imp = rootBySegments imp"
    by (rule packageRoot_rootBySegments)
next
  fix npmLabel
  assume "\<not> hasPrefix prefixes imp"
    and "map_of (Dependencies jsConfig) (rootBySegments imp) = Some npmLabel"
  then show "isNpmDependency imp jsConfig = (True, npmLabel, False)"
    by (simp add: isNpmDependency_def packageRoot_rootBySegments)
next
  fix npmLabel
  assume "\<not> hasPrefix prefixes imp"
    and "map_of (Dependencies jsConfig) (rootBySegments imp) = None \<and>
         map_of (DevDependencies jsConfig) (rootBySegments imp) = Some npmLabel"
  then show "isNpmDependency imp jsConfig = (True, npmLabel, True)"
    by (simp add: isNpmDependency_def packageRoot_rootBySegments)
qed

theorem isNpmDependency_root_lookup_witness:
  "packageRoot ''@foo/bar/x'' = ''@foo''
   \<and> isNpmDependency ''@foo/bar/x'' exScopedConfig = (True, ''@scope//'', False)
   \<and> packageRoot ''@types/node/fs'' = ''@types/node''
   \<and> isNpmDependency ''@types/node/fs'' exScopedConfig = (True, ''@npm//'', True)"
proof -
  have r1: "rootBySegments ''@foo/bar/x'' = ''@foo''"
    and r2: "rootBySegments ''@types/node/fs'' = ''@types/node''"
    by (simp_all add: rootBySegments_def firstSegment_def)
  have p1: "\<not> hasPrefix prefixes ''@foo/bar/x''" and p2: "\<not> hasPrefix prefixes ''@types/node/fs''"
    by (simp_all add: prefixes_def HasPrefix_def)
  have d1: "map_of (Dependencies exScopedConfig) ''@foo'' = Some ''@scope//''"
    and d2: "map_of (Dependencies exScopedConfig) ''@types/node'' = None"
    and d3: "map_of (DevDependencies exScopedConfig) ''@types/node'' = Some ''@npm//''"
    by (simp_all add: exScopedConfig_def exJsConfig_def)
  from isNpmDependency_root_lookup[of "''@foo/bar/x''" exScopedConfig]
       isNpmDependency_root_lookup[of "''@types/node/fs''" exScopedConfig]
       r1 r2 p1 p2 d1 d2 d3
  show ?thesis by simp
qed

theorem scoped_root_counterexample:
  "packageRoot ''@foo/bar/x'' \<noteq> ''@foo/bar''
   \<and> isNpmDependency ''@foo/bar/x''
        (exJsConfig\<lparr>Dependencies := [(''@foo/bar'', ''@npm//'')]\<rparr>) = (True, ''@default//'', False)"
  by code_simp

text \<open>
  Claim C5, as the code has it. An import whose package root starts with
  \<^verbatim>\<open>@\<close> and is in neither table is an npm dependency under the default
  label, counted as a runtime dependency, provided the import starts neither
  with \<^verbatim>\<open>@/\<close> nor with \<^verbatim>\<open>@types\<close>; the round of the loop for such an
  import always returns.
\<close>

theorem isNpmDependency_default_label:
  assumes "HasPrefix (packageRoot imp) ''@''"
    and "map_of (Dependencies jsConfig) (packageRoot imp) = None"
    and "map_of (DevDependencies jsConfig) (packageRoot imp) = None"
    and "\<not> HasPrefix imp ''@/''" and "\<not> HasPrefix imp ''@types''"
  shows "isNpmDependency imp jsConfig = (True, DefaultNpmLabel jsConfig, False) \<and>
    (\<forall>lang c ix fs kind from packageJSON name0 st.
       name0 \<noteq> ''package'' \<and> name0 \<noteq> ''package.json'' \<and> JsConfigs c (Pkg from) = jsConfig
       \<and> fixAliases jsConfig name0 = imp \<longrightarrow>
       resolveImport lang c ix fs kind from packageJSON name0 st
       = Some (npmDependency jsConfig kind imp (DefaultNpmLabel jsConfig) False st))"
proof -
  have at: "HasPrefix imp ''@''" using assms(1) by (rule packageRoot_at)
  then have "\<not> hasPrefix prefixes imp" using assms(4) by (simp add: hasPrefix_at)
  then have npm: "isNpmDependency imp jsConfig = (True, DefaultNpmLabel jsConfig, False)"
    using assms at by (simp add: isNpmDependency_def)
  then show ?thesis using resolveImport_npm by auto
qed

theorem isNpmDependency_default_label_witness:
  "isNpmDependency ''@foo/bar/x'' exJsConfig = (True, ''@default//'', False)
   \<and> resolveImport exLang exConfig exEmptyIndex exNoFiles ''js_library'' exFrom ''//:package''
        ''@foo/bar/x'' exState
      = Some \<lparr>depSet = [''@default//@foo/bar''], dataSet = [''@default//@foo/bar''], logs = []\<rparr>"
proof -
  have h1: "HasPrefix (packageRoot ''@foo/bar/x'') ''@''" by code_simp
  have h2: "map_of (Dependencies exJsConfig) (packageRoot ''@foo/bar/x'') = None" by code_simp
  have h3: "map_of (DevDependencies exJsConfig) (packageRoot ''@foo/bar/x'') = None" by code_simp
  have h4: "\<not> HasPrefix ''@foo/bar/x'' ''@/''" and h5: "\<not> HasPrefix ''@foo/bar/x'' ''@types''"
    by (simp_all add: HasPrefix_def)
  have h6: "JsConfigs exConfig (Pkg exFrom) = exJsConfig" by (simp add: exConfig_def)
  have h7: "fixAliases exJsConfig ''@foo/bar/x'' = ''@foo/bar/x''"
    by (simp add: fixAliases_def exJsConfig_def)
  have h8: "npmDependency exJsConfig ''js_library'' ''@foo/bar/x'' (DefaultNpmLabel exJsConfig)
              False exState
            = \<lparr>depSet = [''@default//@foo/bar''], dataSet = [''@default//@foo/bar''], logs = []\<rparr>"
    by code_simp
  from isNpmDependency_default_label[OF h1 h2 h3 h4 h5] h6 h7 h8 show ?thesis
    by (simp add: exJsConfig_def)
qed

theorem types_scope_counterexample:
  "HasPrefix (packageRoot ''@types/foo'') ''@''
   \<and> map_of (Dependencies exJsConfig) (packageRoot ''@types/foo'') = None
   \<and> map_of (DevDependencies exJsConfig) (packageRoot ''@types/foo'') = None
   \<and> ''@types/foo'' \<notin> set BUILTINS
   \<and> FindRuleWithOverride exConfig ''@types/foo'' = None
   \<and> isNpmDependency ''@types/foo'' exJsConfig = (False, [], False)"
  by code_simp

subsection \<open>Dev dependencies\<close>

lemma jestDevDependencies_dataSet:
  "set (dataSet (jestDevDependencies devs st)) =
     set (dataSet st) \<union>
     {npmLabel @ name | name npmLabel. (name, npmLabel) \<in> set devs \<and> HasPrefix name ''jest''
        \<and> name \<noteq> ''jest-cli'' \<and> name \<noteq> ''jest-junit''}"
proof (induction devs arbitrary: st)
  case Nil
  then show ?case by simp
next
  case (Cons d devs)
  obtain name npmLabel where d: "d = (name, npmLabel)" by (cases d)
  show ?case unfolding d
    by (simp add: Cons.IH Let_def) blast
qed

text \<open>
  Claim C2, as the code has it. The round of the loop for an import classified as
  a dev dependency adds its label to the compile-time set and leaves the
  runtime/data set as it was. The additions for a jest test are different: they
  put into the runtime/data set the label of every entry of the dev-dependency
  table whose name starts with \<^verbatim>\<open>jest\<close>, other than \<^verbatim>\<open>jest-cli\<close> and
  \<^verbatim>\<open>jest-junit\<close>, and no other label of that table.
\<close>

theorem dev_dependency_compile_time_only:
  "(\<forall>npmLabel. name0 \<noteq> ''package'' \<and> name0 \<noteq> ''package.json'' \<and>
      isNpmDependency (fixAliases (JsConfigs c (Pkg from)) name0) (JsConfigs c (Pkg from))
        = (True, npmLabel, True) \<longrightarrow>
      (\<exists>st'. resolveImport lang c ix fs kind from packageJSON name0 st = Some st'
         \<and> dataSet st' = dataSet st
         \<and> npmLabel @ npmName (fixAliases (JsConfigs c (Pkg from)) name0) \<in> set (depSet st')))
   \<and> set (dataSet (jestDevDependencies devs st)) =
       set (dataSet st) \<union>
       {npmLabel @ name | name npmLabel. (name, npmLabel) \<in> set devs \<and> HasPrefix name ''jest''
          \<and> name \<noteq> ''jest-cli'' \<and> name \<noteq> ''jest-junit''}"
proof (intro conjI allI impI)
  fix npmLabel
  assume a: "name0 \<noteq> ''package'' \<and> name0 \<noteq> ''package.json'' \<and>
      isNpmDependency (fixAliases (JsConfigs c (Pkg from)) name0) (JsConfigs c (Pkg from))
        = (True, npmLabel, True)"
  then have round: "resolveImport lang c ix fs kind from packageJSON name0 st
      = Some (npmDependency (JsConfigs c (Pkg from)) kind
                (fixAliases (JsConfigs c (Pkg from)) name0) npmLabel True st)"
    using resolveImport_npm[of name0 c "from" npmLabel True lang ix fs kind packageJSON st]
    by simp
  show "\<exists>st'. resolveImport lang c ix fs kind from packageJSON name0 st = Some st'
         \<and> dataSet st' = dataSet st
         \<and> npmLabel @ npmName (fixAliases (JsConfigs c (Pkg from)) name0) \<in> set (depSet st')"
    unfolding round by (simp add: npmDependency_dataSet npmDependency_depSet)
next
  show "set (dataSet (jestDevDependencies devs st)) =
       set (dataSet st) \<union>
       {npmLabel @ name | name npmLabel. (name, npmLabel) \<in> set devs \<and> HasPrefix name ''jest''
          \<and> name \<noteq> ''jest-cli'' \<and> name \<noteq> ''jest-junit''}"
    by (rule jestDevDependencies_dataSet)
qed

theorem dev_dependency_compile_time_only_witness:
  "resolveImport exLang exConfig exEmptyIndex exNoFiles ''js_library'' exFrom ''//:package''
     ''typescript'' exState
   = Some \<lparr>depSet = [''@npm//typescript''], dataSet = [], logs = []\<rparr>
   \<and> ''@npm//jest'' \<in> set (dataSet (jestDevDependencies (DevDependencies exJsConfig) exState))"
proof -
  have h1: "''typescript'' \<noteq> ''package'' \<and> ''typescript'' \<noteq> ''package.json''" by simp
  have h2: "isNpmDependency (fixAliases (JsConfigs exConfig (Pkg exFrom)) ''typescript'')
              (JsConfigs exConfig (Pkg exFrom)) = (True, ''@npm//'', True)"
    by code_simp
  have h3: "resolveImport exLang exConfig exEmptyIndex exNoFiles ''js_library'' exFrom
              ''//:package'' ''typescript'' exState
            = Some \<lparr>depSet = [''@npm//typescript''], dataSet = [], logs = []\<rparr>"
    by code_simp
  have h4: "''@npm//jest'' \<in>
            {npmLabel @ name | name npmLabel. (name, npmLabel) \<in> set (DevDependencies exJsConfig)
              \<and> HasPrefix name ''jest'' \<and> name \<noteq> ''jest-cli'' \<and> name \<noteq> ''jest-junit''}"
    by (rule CollectI, rule exI[of _ "''jest''"], rule exI[of _ "''@npm//''"])
       (simp add: exJsConfig_def HasPrefix_def)
  from dev_dependency_compile_time_only[of "''typescript''" exConfig exFrom exLang exEmptyIndex
         exNoFiles "''js_library''" "''//:package''" exState "DevDependencies exJsConfig"]
       h1 h2 h3 h4
  show ?thesis by blast
qed

theorem jest_dev_dependency_counterexample:
  "map_of (DevDependencies (JsConfigs exConfig (Pkg exFrom))) ''jest'' = Some ''@npm//''
   \<and> map_of (Dependencies (JsConfigs exConfig (Pkg exFrom))) ''jest'' = None
   \<and> map_option (\<lambda>(r, lg). Attrs r ''data'')
        (Resolve (\<lambda>m. m) (\<lambda>m. m) exLang exConfig exEmptyIndex exNoFiles (exRule ''jest_test'') [] exFrom)
      = Some (Some [''@npm//jest'', ''//:package_json''])"
  by code_simp

subsection \<open>Overrides\<close>

text \<open>
  Claim C7, as the code has it. An override whose label, with an empty
  repository replaced by that of the importing rule, differs from the importing
  rule is returned by \<^verbatim>\<open>tryResolve\<close> directly, whatever the index and the
  file system hold. An override that names the importing rule itself is
  passed over: \<^verbatim>\<open>tryResolve\<close> answers as it would without any override,
  from the index and the file system.
\<close>

theorem override_hit_supplies_label:
  assumes "FindRuleWithOverride c target = Some override0"
  shows "(let override = (if Repo override0 = [] then override0\<lparr>Repo := Repo from\<rparr> else override0)
          in (\<not> Equal override from \<longrightarrow>
                tryResolve c ix fs target from =
                  \<lparr>label = (if Repo override = Repo from then override\<lparr>Repo := []\<rparr> else override),
                   selfImport = False, fileName = [], err = None\<rparr>)
           \<and> (Equal override from \<longrightarrow>
                tryResolve c ix fs target from =
                  tryResolve (c\<lparr>FindRuleWithOverride := (\<lambda>t. None)\<rparr>) ix fs target from))"
proof -
  define override where
    "override = (if Repo override0 = [] then override0\<lparr>Repo := Repo from\<rparr> else override0)"
  have none: "overrideLabel (c\<lparr>FindRuleWithOverride := (\<lambda>t. None)\<rparr>) target from = None"
    by (simp add: overrideLabel_def)
  have hit: "\<not> Equal override from \<Longrightarrow>
      overrideLabel c target from
        = Some (if Repo override = Repo from then override\<lparr>Repo := []\<rparr> else override)"
    using assms by (simp add: overrideLabel_def override_def Let_def)
  have self: "Equal override from \<Longrightarrow> overrideLabel c target from = None"
    using assms by (simp add: overrideLabel_def override_def Let_def)
  have direct: "\<not> Equal override from \<longrightarrow>
      tryResolve c ix fs target from =
        \<lparr>label = (if Repo override = Repo from then override\<lparr>Repo := []\<rparr> else override),
         selfImport = False, fileName = [], err = None\<rparr>"
  proof
    assume "\<not> Equal override from"
    from hit[OF this] show "tryResolve c ix fs target from =
        \<lparr>label = (if Repo override = Repo from then override\<lparr>Repo := []\<rparr> else override),
         selfImport = False, fileName = [], err = None\<rparr>"
      by (simp add: tryResolve_def)
  qed
  have through: "Equal override from \<longrightarrow>
      tryResolve c ix fs target from =
        tryResolve (c\<lparr>FindRuleWithOverride := (\<lambda>t. None)\<rparr>) ix fs target from"
  proof
    assume "Equal override from"
    from self[OF this] none show "tryResolve c ix fs target from =
        tryResolve (c\<lparr>FindRuleWithOverride := (\<lambda>t. None)\<rparr>) ix fs target from"
      by (simp add: tryResolve_def Let_def)
  qed
  from direct through show ?thesis
    unfolding Let_def override_def by blast
qed

theorem override_hit_supplies_label_witness:
  "tryResolve exOverrideConfig exIndexAB exNoFiles ''pkg/x'' exFrom
     = \<lparr>label = findLabel exB, selfImport = False, fileName = [], err = None\<rparr>
   \<and> tryResolve exSelfOverrideConfig exIndexX exNoFiles ''pkg/x'' exFrom
     = tryResolve (exSelfOverrideConfig\<lparr>FindRuleWithOverride := (\<lambda>t. None)\<rparr>) exIndexX exNoFiles
         ''pkg/x'' exFrom"
proof -
  have h1: "FindRuleWithOverride exOverrideConfig ''pkg/x'' = Some (findLabel exB)"
    by (simp add: exOverrideConfig_def)
  have h2: "FindRuleWithOverride exSelfOverrideConfig ''pkg/x'' = Some exFrom"
    by (simp add: exSelfOverrideConfig_def)
  from override_hit_supplies_label[OF h1, of exFrom exIndexAB exNoFiles]
       override_hit_supplies_label[OF h2, of exFrom exIndexX exNoFiles]
  show ?thesis by (simp add: Let_def Equal_def exB_def exFrom_def)
qed

theorem self_override_counterexample:
  "FindRuleWithOverride exSelfOverrideConfig ''pkg/x'' = Some exFrom
   \<and> selfImport (tryResolve exSelfOverrideConfig exIndexX exNoFiles ''pkg/x'' exFrom) = False
   \<and> resolveImport exLang exSelfOverrideConfig exIndexX exNoFiles ''js_library'' exFrom
        ''//:package'' ''./x'' exState
      = Some \<lparr>depSet = [''//other:b''], dataSet = [], logs = []\<rparr>"
  by code_simp

subsection \<open>Ambiguous matches\<close>

lemma extraExtensionsToTry_Cons:
  "\<exists>exts. extraExtensionsToTry lang jsConfig target = [] # exts"
  by (simp add: extraExtensionsToTry_def)

lemma tryResolve_ambiguous:
  assumes "overrideLabel c target from = None" and "length (ix target) > 1"
  shows "tryResolve c ix fs target from =
     \<lparr>label = NoLabel, selfImport = False, fileName = [],
      err = Some (''multiple rules ('' @ String (findLabel (ix target ! 0)) @ '' and ''
                  @ String (findLabel (ix target ! 1)) @ '') provide '' @ target)\<rparr>"
  using assms by (simp add: tryResolve_def Let_def)

lemma probeExtensions_err:
  "err (tryResolve c ix fs (target @ ext) from) = Some e \<Longrightarrow>
   probeExtensions lang c ix fs from target (ext # exts) tries st = Returned (logPrint (Err e) st)"
  by (simp add: Let_def)

lemma resolveWalkParents_loop_first_err:
  assumes "err (tryResolve c ix fs (path_Join [path_Join [Pkg from, parents], walkName name]) from)
           = Some e"
  shows "resolveWalkParents_loop lang c ix fs from name parents tries st
         = Some (logPrint (Err e) st)"
proof -
  obtain exts where exts: "extraExtensionsToTry lang (JsConfigs c (Pkg from))
       (path_Join [path_Join [Pkg from, parents], walkName name]) = [] # exts"
    using extraExtensionsToTry_Cons by blast
  show ?thesis
    by (subst resolveWalkParents_loop.simps) (simp add: Let_def exts assms)
qed

text \<open>
  Claim C1, as the code has it. When the index holds more than one owner for a
  path and no override for that path names another rule, \<^verbatim>\<open>tryResolve\<close>
  returns an error whose message names the first two owners and the path. In the
  walk the error is logged and ends the walk for that import with both sets
  unchanged: the loop over the extensions returns at that path, and a round
  of the walk whose first path is the ambiguous one returns at once, so that
  \<^verbatim>\<open>Resolve\<close> goes on with the next import. Only on the lookup of
  \<^verbatim>\<open>package.json\<close> at the head of \<^verbatim>\<open>Resolve\<close> does the error end the
  resolution of the rule, which is then left as it was.
\<close>

theorem ambiguous_match_is_error:
  assumes "overrideLabel c (target @ ext) from = None" and "length (ix (target @ ext)) > 1"
  shows "(let msg = ''multiple rules ('' @ String (findLabel (ix (target @ ext) ! 0)) @ '' and ''
                    @ String (findLabel (ix (target @ ext) ! 1)) @ '') provide '' @ target @ ext
          in tryResolve c ix fs (target @ ext) from
               = \<lparr>label = NoLabel, selfImport = False, fileName = [], err = Some msg\<rparr>
           \<and> probeExtensions lang c ix fs from target (ext # exts) tries st
               = Returned (logPrint (Err msg) st)
           \<and> (ext = [] \<and> target = path_Join [path_Join [Pkg from, parents], walkName name] \<longrightarrow>
                resolveWalkParents_loop lang c ix fs from name parents tries st
                  = Some (logPrint (Err msg) st))
           \<and> (target @ ext = ''package.json'' \<longrightarrow>
                Resolve depsOrder dataOrder lang c ix fs r imports from = Some (r, [Err msg])))"
proof -
  note amb = tryResolve_ambiguous[of c "target @ ext" "from" ix fs, OF assms]
  have e: "err (tryResolve c ix fs (target @ ext) from) =
      Some (''multiple rules ('' @ String (findLabel (ix (target @ ext) ! 0)) @ '' and ''
            @ String (findLabel (ix (target @ ext) ! 1)) @ '') provide '' @ target @ ext)"
    by (simp add: amb)
  have walk: "ext = [] \<and> target = path_Join [path_Join [Pkg from, parents], walkName name] \<longrightarrow>
      resolveWalkParents_loop lang c ix fs from name parents tries st =
        Some (logPrint (Err (''multiple rules ('' @ String (findLabel (ix (target @ ext) ! 0))
            @ '' and '' @ String (findLabel (ix (target @ ext) ! 1)) @ '') provide ''
            @ target @ ext)) st)"
    using e resolveWalkParents_loop_first_err[of c ix fs "from" parents name _ lang tries st]
    by auto
  have res: "target @ ext = ''package.json'' \<longrightarrow>
      Resolve depsOrder dataOrder lang c ix fs r imports from =
        Some (r, [Err (''multiple rules ('' @ String (findLabel (ix (target @ ext) ! 0))
            @ '' and '' @ String (findLabel (ix (target @ ext) ! 1)) @ '') provide ''
            @ target @ ext)])"
    using e by (auto simp: Resolve_def Let_def)
  show ?thesis
    unfolding Let_def using amb probeExtensions_err[OF e] walk res by simp
qed

theorem ambiguous_match_is_error_witness:
  "resolveWalkParents exLang exConfig exIndexAB exNoFiles exFrom ''./a'' exState
     = Some (logPrint (Err ''multiple rules (//pkg:a1 and //pkg:a2) provide pkg/a'') exState)
   \<and> Resolve (\<lambda>m. m) (\<lambda>m. m) exLang exConfig exIndexManifest exNoFiles (exRule ''js_library'') [''./b'']
        exFrom
     = Some (exRule ''js_library'',
             [Err ''multiple rules (//pkg:a1 and //pkg:a2) provide package.json''])"
proof -
  have h1: "overrideLabel exConfig (''pkg/a'' @ []) exFrom = None"
    and h2: "overrideLabel exConfig (''package.json'' @ []) exFrom = None"
    by (simp_all add: overrideLabel_def exConfig_def)
  have h3: "length (exIndexAB (''pkg/a'' @ [])) > 1"
    and h4: "length (exIndexManifest (''package.json'' @ [])) > 1"
    by (simp_all add: exIndexAB_def exIndexManifest_def)
  have t: "''pkg/a'' = path_Join [path_Join [Pkg exFrom, []], walkName ''./a'']"
    by code_simp
  have w: "resolveWalkParents exLang exConfig exIndexAB exNoFiles exFrom ''./a'' exState
           = resolveWalkParents_loop exLang exConfig exIndexAB exNoFiles exFrom ''./a'' [] []
               exState"
    by (simp add: resolveWalkParents_def)
  have m1: "''multiple rules ('' @ String (findLabel (exIndexAB (''pkg/a'' @ []) ! 0)) @ '' and ''
            @ String (findLabel (exIndexAB (''pkg/a'' @ []) ! 1)) @ '') provide '' @ ''pkg/a'' @ []
            = ''multiple rules (//pkg:a1 and //pkg:a2) provide pkg/a''"
    by code_simp
  have m2: "''multiple rules ('' @ String (findLabel (exIndexManifest (''package.json'' @ []) ! 0))
            @ '' and '' @ String (findLabel (exIndexManifest (''package.json'' @ []) ! 1))
            @ '') provide '' @ ''package.json'' @ []
            = ''multiple rules (//pkg:a1 and //pkg:a2) provide package.json''"
    by code_simp
  from ambiguous_match_is_error[where c = exConfig and target = "''pkg/a''" and ext = "[]"
         and ix = exIndexAB and ?from = exFrom and fs = exNoFiles and lang = exLang
         and exts = "[]" and tries = "[]" and st = exState and name = "''./a''"
         and parents = "[]"
         and depsOrder = "\<lambda>m. m" and dataOrder = "\<lambda>m. m" and r = "exRule ''js_library''" and ?imports = "[''./b'']",
         OF h1 h3]
  have w1: "resolveWalkParents exLang exConfig exIndexAB exNoFiles exFrom ''./a'' exState
     = Some (logPrint (Err ''multiple rules (//pkg:a1 and //pkg:a2) provide pkg/a'') exState)"
    unfolding Let_def m1 w using t by simp
  from ambiguous_match_is_error[where c = exConfig and target = "''package.json''"
         and ext = "[]" and ix = exIndexManifest and ?from = exFrom and fs = exNoFiles
         and lang = exLang and exts = "[]" and tries = "[]" and st = exState
         and name = "''./a''" and parents = "[]" and depsOrder = "\<lambda>m. m" and dataOrder = "\<lambda>m. m" and r = "exRule ''js_library''"
         and ?imports = "[''./b'']", OF h2 h4]
  have w2: "Resolve (\<lambda>m. m) (\<lambda>m. m) exLang exConfig exIndexManifest exNoFiles (exRule ''js_library'')
        [''./b''] exFrom
     = Some (exRule ''js_library'',
             [Err ''multiple rules (//pkg:a1 and //pkg:a2) provide package.json''])"
    unfolding Let_def m2 by simp
  from w1 w2 show ?thesis by simp
qed

theorem ambiguity_continues_counterexample:
  "length (exIndexAB ''pkg/a'') = 3
   \<and> map_option (\<lambda>(r, lg). (Attrs r ''deps'', Attrs r ''data'', lg))
       (Resolve (\<lambda>m. m) (\<lambda>m. m) exLang exConfig exIndexAB exNoFiles (exRule ''js_library'')
          [''./a'', ''./b''] exFrom)
     = Some (Some [''//other:b''], None,
             [Err ''multiple rules (//pkg:a1 and //pkg:a2) provide pkg/a''])"
  by code_simp

subsection \<open>Self imports\<close>

lemma String_absolute:
  "\<not> Relative l \<Longrightarrow> \<exists>rest. String l = CHR ''/'' # rest \<or> String l = CHR ''@'' # rest"
  by (simp add: String_def Let_def)

lemma String_Rel_self: "\<not> Relative from \<Longrightarrow> String (Rel from (Repo from) (Pkg from)) = '':'' @ Name from"
  by (simp add: Rel_def String_def)

lemma String_Rel_other:
  assumes "\<not> Relative l" "\<not> Relative from"
    and "Repo l = Repo from \<and> Pkg l = Pkg from \<longrightarrow> Name l \<noteq> Name from"
  shows "String (Rel l (Repo from) (Pkg from)) \<noteq> '':'' @ Name from"
proof (cases "Repo l = Repo from \<and> Pkg l = Pkg from")
  case True
  then show ?thesis using assms by (simp add: Rel_def String_def)
next
  case False
  then have "\<not> Relative (Rel l (Repo from) (Pkg from))"
    using assms by (auto simp: Rel_def)
  from String_absolute[OF this] show ?thesis by auto
qed

lemma overrideLabel_not_self:
  assumes "overrideLabel c target from = Some l" "\<not> Relative l" "\<not> Relative from"
  shows "Repo l = Repo from \<and> Pkg l = Pkg from \<longrightarrow> Name l \<noteq> Name from"
  using assms
  by (auto simp: overrideLabel_def Let_def Equal_def split: option.splits if_splits)

lemma tryResolve_label_not_self:
  assumes "label (tryResolve c ix fs target from) \<noteq> NoLabel"
    and "\<not> Relative (label (tryResolve c ix fs target from))" "\<not> Relative from"
  shows "Repo (label (tryResolve c ix fs target from)) = Repo from
         \<and> Pkg (label (tryResolve c ix fs target from)) = Pkg from
         \<longrightarrow> Name (label (tryResolve c ix fs target from)) \<noteq> Name from"
proof (cases "overrideLabel c target from")
  case (Some l)
  then have "label (tryResolve c ix fs target from) = l" by (simp add: tryResolve_def)
  with overrideLabel_not_self[OF Some] assms show ?thesis by simp
next
  case None
  with assms show ?thesis
    by (auto simp: tryResolve_def Let_def IsSelfImport_def Equal_def
             split: if_splits option.splits)
qed

lemma tryResolve_selfImport:
  "selfImport (tryResolve c ix fs target from) \<Longrightarrow>
   tryResolve c ix fs target from
     = \<lparr>label = NoLabel, selfImport = True, fileName = [], err = None\<rparr>"
  by (auto simp: tryResolve_def Let_def split: if_splits option.splits)

text \<open>
  Claim C8, as the code has it. A single index match that is the importing rule
  (or embeds it) is reported as a self import, and on a self import the walk
  returns with both sets unchanged. A label that \<^verbatim>\<open>tryResolve\<close> does
  return, from an override or from the index, is never rendered as the importing
  rule's own label, when both labels are absolute. (Labels that do not come from
  a match, such as the default \<^verbatim>\<open>//:package\<close>, are not compared with the
  importing rule.)
\<close>

theorem self_match_adds_no_edge:
  "(let res = tryResolve c ix fs (target @ ext) from
    in (overrideLabel c (target @ ext) from = None \<and> length (ix (target @ ext)) = 1
          \<and> IsSelfImport (ix (target @ ext) ! 0) from \<longrightarrow> selfImport res)
     \<and> (selfImport res \<longrightarrow>
          label res = NoLabel
          \<and> probeExtensions lang c ix fs from target (ext # exts) tries st = Returned st)
     \<and> (label res \<noteq> NoLabel \<and> \<not> Relative (label res) \<and> \<not> Relative from \<longrightarrow>
          String (Rel (label res) (Repo from) (Pkg from))
            \<noteq> String (Rel from (Repo from) (Pkg from))))"
proof -
  have a: "overrideLabel c (target @ ext) from = None \<and> length (ix (target @ ext)) = 1
          \<and> IsSelfImport (ix (target @ ext) ! 0) from
          \<longrightarrow> selfImport (tryResolve c ix fs (target @ ext) from)"
    by (simp add: tryResolve_def Let_def)
  have b: "selfImport (tryResolve c ix fs (target @ ext) from) \<longrightarrow>
          label (tryResolve c ix fs (target @ ext) from) = NoLabel
          \<and> probeExtensions lang c ix fs from target (ext # exts) tries st = Returned st"
    using tryResolve_selfImport[of c ix fs "target @ ext" "from"] by (auto simp: Let_def)
  have c: "label (tryResolve c ix fs (target @ ext) from) \<noteq> NoLabel
          \<and> \<not> Relative (label (tryResolve c ix fs (target @ ext) from)) \<and> \<not> Relative from \<longrightarrow>
          String (Rel (label (tryResolve c ix fs (target @ ext) from)) (Repo from) (Pkg from))
            \<noteq> String (Rel from (Repo from) (Pkg from))"
    using tryResolve_label_not_self[of c ix fs "target @ ext" "from"]
          String_Rel_other[of "label (tryResolve c ix fs (target @ ext) from)" "from"]
          String_Rel_self[of "from"]
    by auto
  show ?thesis unfolding Let_def using a b c by blast
qed

theorem self_match_adds_no_edge_witness:
  "probeExtensions exLang exConfig exIndexSelf exNoFiles exFrom ''pkg/lib'' [''.ts'', ''.js''] []
     exState = Returned exState
   \<and> String (Rel (label (tryResolve exConfig exIndexX exNoFiles ''pkg/x'' exFrom))
                (Repo exFrom) (Pkg exFrom)) \<noteq> '':lib''"
proof -
  have h1: "overrideLabel exConfig (''pkg/lib'' @ ''.ts'') exFrom = None
            \<and> length (exIndexSelf (''pkg/lib'' @ ''.ts'')) = 1
            \<and> IsSelfImport (exIndexSelf (''pkg/lib'' @ ''.ts'') ! 0) exFrom"
    by code_simp
  have h2: "label (tryResolve exConfig exIndexX exNoFiles (''pkg/x'' @ []) exFrom) \<noteq> NoLabel
            \<and> \<not> Relative (label (tryResolve exConfig exIndexX exNoFiles (''pkg/x'' @ []) exFrom))
            \<and> \<not> Relative exFrom"
    by code_simp
  have h3: "String (Rel exFrom (Repo exFrom) (Pkg exFrom)) = '':lib''"
    by code_simp
  from self_match_adds_no_edge[of exConfig exIndexSelf exNoFiles "''pkg/lib''" "''.ts''" exFrom
         exLang "[''.js'']" "[]" exState] h1
  have w1: "probeExtensions exLang exConfig exIndexSelf exNoFiles exFrom ''pkg/lib''
              [''.ts'', ''.js''] [] exState = Returned exState"
    unfolding Let_def by blast
  from self_match_adds_no_edge[of exConfig exIndexX exNoFiles "''pkg/x''" "[]" exFrom
         exLang "[]" "[]" exState] h2 h3
  have w2: "String (Rel (label (tryResolve exConfig exIndexX exNoFiles ''pkg/x'' exFrom))
                (Repo exFrom) (Pkg exFrom)) \<noteq> '':lib''"
    unfolding Let_def by simp
  from w1 w2 show ?thesis by simp
qed

theorem manifest_default_counterexample:
  "String exRootPackage = ''//:package''
   \<and> map_option (\<lambda>(r, lg). Attrs r ''deps'')
        (Resolve (\<lambda>m. m) (\<lambda>m. m) exLang exConfig exEmptyIndex exNoFiles (exRule ''js_library'')
           [''package.json''] exRootPackage)
      = Some (Some [''//:package''])"
  by code_simp

subsection \<open>Writing the attributes\<close>

lemma renderAttr_Attrs:
  "Attrs (renderAttr rangeOrder key m r) = (Attrs r)(key := attrValue (rangeOrder m))"
  by (auto simp: renderAttr_def attrValue_def SetAttr_def DelAttr_def Let_def)

lemma renderAttr_Kind: "Kind (renderAttr rangeOrder key m r) = Kind r"
  by (auto simp: renderAttr_def SetAttr_def DelAttr_def Let_def)

text \<open>
  Claim C6, as the code has it. On a pass whose lookup of \<^verbatim>\<open>package.json\<close>
  gives neither an error nor a self import, and that returns, each of the two
  attributes is set to the newly computed set, or removed when that set is
  empty, whatever it held before; the kind and the other attributes are
  untouched.
\<close>

theorem attributes_replaced:
  assumes "err (tryResolve c ix fs ''package.json'' from) = None"
    and "\<not> selfImport (tryResolve c ix fs ''package.json'' from)"
    and "Resolve depsOrder dataOrder lang c ix fs r imports from = Some (r', lg)"
  shows "\<exists>st. resolveSets lang c ix fs (Kind r) from
                 (packageJSONLabel (tryResolve c ix fs ''package.json'' from) from) imports = Some st
          \<and> Attrs r' = (Attrs r)(''deps'' := attrValue (depsOrder (depSet st)),
                                 ''data'' := attrValue (dataOrder (dataSet st)))
          \<and> Kind r' = Kind r
          \<and> (\<forall>r2. Kind r2 = Kind r \<longrightarrow>
                (\<exists>r2'. Resolve depsOrder dataOrder lang c ix fs r2 imports from = Some (r2', lg)
                   \<and> Attrs r2' ''deps'' = Attrs r' ''deps''
                   \<and> Attrs r2' ''data'' = Attrs r' ''data''))"
proof -
  obtain st where st: "resolveSets lang c ix fs (Kind r) from
        (packageJSONLabel (tryResolve c ix fs ''package.json'' from) from) imports = Some st"
    and r': "r' = renderAttr dataOrder ''data'' (dataSet st)
                    (renderAttr depsOrder ''deps'' (depSet st) r)"
    and lg: "lg = logs st"
    using assms by (auto simp: Resolve_def Let_def split: option.splits)
  have other: "\<forall>r2. Kind r2 = Kind r \<longrightarrow>
      Resolve depsOrder dataOrder lang c ix fs r2 imports from
        = Some (renderAttr dataOrder ''data'' (dataSet st)
                  (renderAttr depsOrder ''deps'' (depSet st) r2), lg)"
    using assms(1,2) st lg by (simp add: Resolve_def Let_def)
  show ?thesis
    using st other unfolding r'
    by (intro exI[of _ st]) (simp add: renderAttr_Attrs renderAttr_Kind)
qed


lemma exB_sets:
  "resolveSets exLang exConfig exIndexAB exNoFiles ''js_library'' exFrom ''//:package'' [''./b'']
   = Some \<lparr>depSet = [''//other:b''], dataSet = [], logs = []\<rparr>"
  by code_simp

lemma exAB_manifest:
  "tryResolve exConfig exIndexAB exNoFiles ''package.json'' exFrom
   = \<lparr>label = NoLabel, selfImport = False, fileName = [], err = None\<rparr>"
  by code_simp

theorem attributes_replaced_witness:
  "map_option (\<lambda>(r, lg). (Attrs r ''deps'', Attrs r ''data'', Attrs r ''srcs'', Kind r))
     (Resolve (\<lambda>m. m) (\<lambda>m. m) exLang exConfig exIndexAB exNoFiles (exRule ''js_library'') [''./b''] exFrom)
   = Some (Some [''//other:b''], None, None, ''js_library'')"
proof -
  have h1: "err (tryResolve exConfig exIndexAB exNoFiles ''package.json'' exFrom) = None"
    and h2: "\<not> selfImport (tryResolve exConfig exIndexAB exNoFiles ''package.json'' exFrom)"
    by (simp_all add: exAB_manifest)
  have pj0: "packageJSONLabel \<lparr>label = NoLabel, selfImport = False, fileName = [], err = None\<rparr>
               exFrom = ''//:package''"
    by (simp add: packageJSONLabel_def)
  have pj: "packageJSONLabel (tryResolve exConfig exIndexAB exNoFiles ''package.json'' exFrom)
              exFrom = ''//:package''"
    by (simp add: exAB_manifest pj0)
  have k: "Kind (exRule ''js_library'') = ''js_library''" by (simp add: exRule_def)
  have h3: "Resolve (\<lambda>m. m) (\<lambda>m. m) exLang exConfig exIndexAB exNoFiles (exRule ''js_library'') [''./b'']
              exFrom
            = Some (renderAttr (\<lambda>m. m) ''data'' []
                      (renderAttr (\<lambda>m. m) ''deps'' [''//other:b''] (exRule ''js_library'')), [])"
    by (simp add: Resolve_def exAB_manifest pj0 k exB_sets)
  from attributes_replaced[OF h1 h2 h3] pj k exB_sets h3 show ?thesis
    by (auto simp: attrValue_def exRule_def)
qed

theorem aborted_pass_counterexample:
  "map_option (\<lambda>(r, lg). Attrs r ''deps'')
     (Resolve (\<lambda>m. m) (\<lambda>m. m) exLang exConfig exIndexManifest exNoFiles (exRule ''js_library'') [] exFrom)
   = Some (Some [''//old:dep''])"
  by code_simp

lemma probeExtensions_distinct:
  "probeExtensions lang c ix fs from target exts tries st = Returned st' \<Longrightarrow>
   distinct (depSet st) \<and> distinct (dataSet st) \<Longrightarrow>
   distinct (depSet st') \<and> distinct (dataSet st')"
proof (induction exts arbitrary: tries)
  case Nil
  then show ?case by simp
next
  case (Cons ext exts)
  then show ?case
    by (auto simp: Let_def split: option.splits if_splits)
qed

lemma notFound_sets [simp]:
  "depSet (notFound jsConfig from name tries st) = depSet st"
  "dataSet (notFound jsConfig from name tries st) = dataSet st"
  by (simp_all add: notFound_def Let_def)

lemma resolveWalkParents_loop_distinct:
  assumes "resolveWalkParents_loop lang c ix fs from name parents tries st = Some st'"
  shows "distinct (depSet st) \<and> distinct (dataSet st) \<longrightarrow>
         distinct (depSet st') \<and> distinct (dataSet st')"
proof (rule resolveWalkParents_loop.raw_induct[where
         P = "\<lambda>lang c ix fs from name parents tries st st'.
                distinct (depSet st) \<and> distinct (dataSet st) \<longrightarrow>
                distinct (depSet st') \<and> distinct (dataSet st')", OF _ assms])
  fix walk :: "JS \<Rightarrow> Config \<Rightarrow> RuleIndex \<Rightarrow> FileSystem \<Rightarrow> Label \<Rightarrow> string \<Rightarrow> string
               \<Rightarrow> string list \<Rightarrow> ResolveState \<Rightarrow> ResolveState option"
    and lang c ix fs "from" name parents tries st y
  assume IH: "\<And>lang c ix fs from name parents tries st y.
      walk lang c ix fs from name parents tries st = Some y \<Longrightarrow>
      distinct (depSet st) \<and> distinct (dataSet st) \<longrightarrow> distinct (depSet y) \<and> distinct (dataSet y)"
  assume step: "(let jsConfig = JsConfigs c (Pkg from); name' = walkName name;
          localDir = path_Join [Pkg from, parents];
          target = path_Join [localDir, name']
      in case probeExtensions lang c ix fs from target
               (extraExtensionsToTry lang jsConfig target) tries st of
           Returned st' \<Rightarrow> Some st'
         | Exhausted tries' \<Rightarrow>
             if JSRoot jsConfig = localDir \<or> localDir = ''.''
             then Some (notFound jsConfig from name' tries' st)
             else walk lang c ix fs from name' (parents @ ''../'') tries' st) = Some y"
  show "distinct (depSet st) \<and> distinct (dataSet st) \<longrightarrow> distinct (depSet y) \<and> distinct (dataSet y)"
  proof
    assume d: "distinct (depSet st) \<and> distinct (dataSet st)"
    show "distinct (depSet y) \<and> distinct (dataSet y)"
    proof (cases "probeExtensions lang c ix fs from
                    (path_Join [path_Join [Pkg from, parents], walkName name])
                    (extraExtensionsToTry lang (JsConfigs c (Pkg from))
                       (path_Join [path_Join [Pkg from, parents], walkName name])) tries st")
      case (Returned st1)
      with step have "y = st1" by (simp add: Let_def)
      with probeExtensions_distinct[OF Returned d] show ?thesis by simp
    next
      case (Exhausted tries')
      show ?thesis
      proof (cases "JSRoot (JsConfigs c (Pkg from)) = path_Join [Pkg from, parents]
                    \<or> path_Join [Pkg from, parents] = ''.''")
        case True
        with step Exhausted have "y = notFound (JsConfigs c (Pkg from)) from (walkName name) tries' st"
          by (simp add: Let_def)
        then show ?thesis using d by simp
      next
        case False
        with step Exhausted have
          "walk lang c ix fs from (walkName name) (parents @ ''../'') tries' st = Some y"
          by (simp add: Let_def)
        from IH[OF this] d show ?thesis by simp
      qed
    qed
  qed
qed

lemma typesDependency_distinct:
  "distinct (depSet (typesDependency cfg kind name st)) = distinct (depSet st)"
  by (simp add: typesDependency_def split: prod.splits)

lemma npmDependency_distinct:
  "distinct (depSet st) \<and> distinct (dataSet st) \<Longrightarrow>
   distinct (depSet (npmDependency cfg kind name npmLabel devDep st))
   \<and> distinct (dataSet (npmDependency cfg kind name npmLabel devDep st))"
  by (simp add: npmDependency_def Let_def typesDependency_distinct)

lemma resolveImport_distinct:
  assumes "resolveImport lang c ix fs kind from packageJSON name st = Some st'"
    and "distinct (depSet st) \<and> distinct (dataSet st)"
  shows "distinct (depSet st') \<and> distinct (dataSet st')"
  using assms resolveWalkParents_loop_distinct[of lang c ix fs "from" _ "[]" "[]" st st']
        npmDependency_distinct[OF assms(2)]
  by (auto simp: resolveImport_def Let_def resolveWalkParents_def typesDependency_distinct
           split: if_splits prod.splits)

lemma resolveImports_distinct:
  "resolveImports lang c ix fs kind from packageJSON names st = Some st' \<Longrightarrow>
   distinct (depSet st) \<and> distinct (dataSet st) \<Longrightarrow>
   distinct (depSet st') \<and> distinct (dataSet st')"
proof (induction names arbitrary: st)
  case Nil
  then show ?case by simp
next
  case (Cons name names)
  from Cons.prems(1) obtain st1 where
    s1: "resolveImport lang c ix fs kind from packageJSON name st = Some st1"
    and s2: "resolveImports lang c ix fs kind from packageJSON names st1 = Some st'"
    by (auto split: option.splits)
  from resolveImport_distinct[OF s1 Cons.prems(2)] Cons.IH[OF s2] show ?case by simp
qed

lemma jestDevDependencies_distinct:
  "distinct (depSet st) \<and> distinct (dataSet st) \<Longrightarrow>
   distinct (depSet (jestDevDependencies devs st)) \<and> distinct (dataSet (jestDevDependencies devs st))"
proof (induction devs arbitrary: st)
  case Nil
  then show ?case by simp
next
  case (Cons d devs)
  obtain name npmLabel where d: "d = (name, npmLabel)" by (cases d)
  show ?case unfolding d using Cons.prems
    by (auto simp: Let_def intro!: Cons.IH)
qed

lemma jestDependencies_distinct:
  "distinct (depSet st) \<and> distinct (dataSet st) \<Longrightarrow>
   distinct (depSet (jestDependencies lang c kind from st))
   \<and> distinct (dataSet (jestDependencies lang c kind from st))"
  using jestDevDependencies_distinct[of st]
  by (auto simp: jestDependencies_def Let_def)

lemma resolveSets_distinct:
  assumes "resolveSets lang c ix fs kind from packageJSON imports = Some st"
  shows "distinct (depSet st) \<and> distinct (dataSet st)"
proof -
  from assms obtain st0 where
    s0: "resolveImports lang c ix fs kind from packageJSON imports
           \<lparr>depSet = [], dataSet = [], logs = []\<rparr> = Some st0"
    and st: "st = jestDependencies lang c kind from st0"
    by (auto simp: resolveSets_def split: option.splits)
  have "distinct (depSet st0) \<and> distinct (dataSet st0)"
    by (rule resolveImports_distinct[OF s0]) simp
  then show ?thesis unfolding st by (rule jestDependencies_distinct)
qed

lemma attrValue_rangeOrder:
  assumes "\<forall>m. distinct m \<longrightarrow> distinct (rangeOrder m) \<and> set (rangeOrder m) = set m"
    and "distinct m"
  shows "case attrValue (rangeOrder m) of None \<Rightarrow> m = []
         | Some deps \<Rightarrow> deps \<noteq> [] \<and> distinct deps \<and> set deps = set m"
proof (cases "rangeOrder m = []")
  case True
  then have "set m = {}" using assms by (metis set_empty)
  then show ?thesis using True by (simp add: attrValue_def)
next
  case False
  then show ?thesis using assms by (simp add: attrValue_def)
qed

text \<open>
  Claim C3, as the code has it. Whatever order the \<^verbatim>\<open>range\<close> over a map
  takes, each rendered attribute list is without duplicates and holds exactly
  the labels of the computed set; the order of the list is the order of that
  \<^verbatim>\<open>range\<close>, which \<^verbatim>\<open>Resolve\<close> does not fix.
\<close>

theorem rendered_lists_deduplicated:
  assumes "\<forall>m. distinct m \<longrightarrow> distinct (depsOrder m) \<and> set (depsOrder m) = set m"
    and "\<forall>m. distinct m \<longrightarrow> distinct (dataOrder m) \<and> set (dataOrder m) = set m"
    and "err (tryResolve c ix fs ''package.json'' from) = None"
    and "\<not> selfImport (tryResolve c ix fs ''package.json'' from)"
    and "Resolve depsOrder dataOrder lang c ix fs r imports from = Some (r', lg)"
  shows "\<exists>st. resolveSets lang c ix fs (Kind r) from
                 (packageJSONLabel (tryResolve c ix fs ''package.json'' from) from) imports = Some st
          \<and> (case Attrs r' ''deps'' of None \<Rightarrow> depSet st = []
              | Some deps \<Rightarrow> deps \<noteq> [] \<and> distinct deps \<and> set deps = set (depSet st))
          \<and> (case Attrs r' ''data'' of None \<Rightarrow> dataSet st = []
              | Some data \<Rightarrow> data \<noteq> [] \<and> distinct data \<and> set data = set (dataSet st))"
proof -
  obtain st where st: "resolveSets lang c ix fs (Kind r) from
        (packageJSONLabel (tryResolve c ix fs ''package.json'' from) from) imports = Some st"
    and r': "r' = renderAttr dataOrder ''data'' (dataSet st)
                    (renderAttr depsOrder ''deps'' (depSet st) r)"
    using assms by (auto simp: Resolve_def Let_def split: option.splits)
  note d = resolveSets_distinct[OF st]
  have deps: "Attrs r' ''deps'' = attrValue (depsOrder (depSet st))"
    and data: "Attrs r' ''data'' = attrValue (dataOrder (dataSet st))"
    unfolding r' by (simp_all add: renderAttr_Attrs)
  show ?thesis
    using st attrValue_rangeOrder[OF assms(1), of "depSet st"]
          attrValue_rangeOrder[OF assms(2), of "dataSet st"] d
    unfolding deps data by blast
qed

lemma exTwo_sets:
  "resolveSets exLang exConfig exEmptyIndex exNoFiles ''js_library'' exFrom ''//:package''
     [''lodash'', ''@a/b'']
   = Some \<lparr>depSet = [''@npm//lodash'', ''@default//@a/b''],
           dataSet = [''@npm//lodash'', ''@default//@a/b''], logs = []\<rparr>"
  by code_simp

lemma exEmpty_manifest:
  "tryResolve exConfig exEmptyIndex exNoFiles ''package.json'' exFrom
   = \<lparr>label = NoLabel, selfImport = False, fileName = [], err = None\<rparr>"
  by code_simp

theorem rendered_lists_deduplicated_witness:
  "map_option (\<lambda>(r, lg). (Attrs r ''deps'', Attrs r ''data''))
     (Resolve rev rev exLang exConfig exEmptyIndex exNoFiles (exRule ''js_library'')
        [''lodash'', ''@a/b''] exFrom)
   = Some (Some [''@default//@a/b'', ''@npm//lodash''], Some [''@default//@a/b'', ''@npm//lodash''])
   \<and> distinct [''@default//@a/b'', ''@npm//lodash'']"
proof -
  have h0: "\<forall>m::string list. distinct m \<longrightarrow> distinct (rev m) \<and> set (rev m) = set m" by simp
  have h1: "err (tryResolve exConfig exEmptyIndex exNoFiles ''package.json'' exFrom) = None"
    and h2: "\<not> selfImport (tryResolve exConfig exEmptyIndex exNoFiles ''package.json'' exFrom)"
    by (simp_all add: exEmpty_manifest)
  have pj0: "packageJSONLabel \<lparr>label = NoLabel, selfImport = False, fileName = [], err = None\<rparr>
               exFrom = ''//:package''"
    by (simp add: packageJSONLabel_def)
  have k: "Kind (exRule ''js_library'') = ''js_library''" by (simp add: exRule_def)
  have h3: "Resolve rev rev exLang exConfig exEmptyIndex exNoFiles (exRule ''js_library'')
              [''lodash'', ''@a/b''] exFrom
            = Some (renderAttr rev ''data'' [''@npm//lodash'', ''@default//@a/b'']
                      (renderAttr rev ''deps'' [''@npm//lodash'', ''@default//@a/b'']
                         (exRule ''js_library'')), [])"
    by (simp add: Resolve_def exEmpty_manifest pj0 k exTwo_sets)
  have a: "Attrs (renderAttr rev ''data'' [''@npm//lodash'', ''@default//@a/b'']
                      (renderAttr rev ''deps'' [''@npm//lodash'', ''@default//@a/b'']
                         (exRule ''js_library''))) ''deps''
           = Some [''@default//@a/b'', ''@npm//lodash'']"
    "Attrs (renderAttr rev ''data'' [''@npm//lodash'', ''@default//@a/b'']
                      (renderAttr rev ''deps'' [''@npm//lodash'', ''@default//@a/b'']
                         (exRule ''js_library''))) ''data''
           = Some [''@default//@a/b'', ''@npm//lodash'']"
    by (simp_all add: renderAttr_Attrs attrValue_def)
  from rendered_lists_deduplicated[OF h0 h0 h1 h2 h3, unfolded a]
  have d: "distinct [''@default//@a/b'', ''@npm//lodash'']"
    by simp
  from d a h3 show ?thesis by simp
qed

theorem range_order_counterexample:
  "map_option (\<lambda>(r, lg). Attrs r ''deps'')
     (Resolve (\<lambda>m. m) (\<lambda>m. m) exLang exConfig exEmptyIndex exNoFiles (exRule ''js_library'')
        [''lodash'', ''@a/b''] exFrom)
   = Some (Some [''@npm//lodash'', ''@default//@a/b''])
   \<and> \<not> sorted [''@npm//lodash'', ''@default//@a/b'']
   \<and> map_option (\<lambda>(r, lg). Attrs r ''deps'')
     (Resolve rev rev exLang exConfig exEmptyIndex exNoFiles (exRule ''js_library'')
        [''lodash'', ''@a/b''] exFrom)
   = Some (Some [''@default//@a/b'', ''@npm//lodash''])"
proof -
  have run1: "map_option (\<lambda>(r, lg). Attrs r ''deps'')
     (Resolve (\<lambda>m. m) (\<lambda>m. m) exLang exConfig exEmptyIndex exNoFiles (exRule ''js_library'')
        [''lodash'', ''@a/b''] exFrom)
   = Some (Some [''@npm//lodash'', ''@default//@a/b''])"
    by code_simp
  have unsorted: "\<not> sorted [''@npm//lodash'', ''@default//@a/b'']"
    by simp
  have run2: "map_option (\<lambda>(r, lg). Attrs r ''deps'')
     (Resolve rev rev exLang exConfig exEmptyIndex exNoFiles (exRule ''js_library'')
        [''lodash'', ''@a/b''] exFrom)
   = Some (Some [''@default//@a/b'', ''@npm//lodash''])"
    by code_simp
  from run1 unsorted run2 show ?thesis by blast
qed

subsection \<open>Termination of the walk\<close>

lemma parentSteps_Suc: "parentSteps k @ ''../'' = parentSteps (Suc k)"
  unfolding parentSteps_def by (induction k) simp_all

lemma splitOn_parentSteps: "splitOn CHR ''/'' (parentSteps k) = replicate k ''..'' @ [[]]"
  unfolding parentSteps_def by (induction k) simp_all

lemma foldl_cleanStep_dotdot:
  "foldl (cleanStep False) (replicate j ''..'') (replicate k ''..'') = replicate (j + k) ''..''"
proof (induction k arbitrary: j)
  case 0
  then show ?case by simp
next
  case (Suc k)
  have "cleanStep False (replicate j ''..'') ''..'' = replicate (Suc j) ''..''"
    by (cases j) (simp_all add: cleanStep_def)
  then show ?case using Suc[of "Suc j"] by simp
qed

lemma foldl_cleanStep_dotdot0:
  "foldl (cleanStep False) [] (replicate k ''..'') = replicate k ''..''"
  using foldl_cleanStep_dotdot[of 0 k] by simp

lemma joinWith_dotdot: "\<exists>rest. joinWith ''/'' (replicate (Suc k) ''..'') = ''..'' @ rest"
  by (cases k) simp_all

lemma path_Clean_parentSteps:
  "path_Clean (parentSteps (Suc k)) = joinWith ''/'' (replicate (Suc k) ''..'')"
proof -
  have ne: "parentSteps (Suc k) \<noteq> []" and hd: "hd (parentSteps (Suc k)) = CHR ''.''"
    by (simp_all add: parentSteps_def)
  have "foldl (cleanStep False) [] (splitOn CHR ''/'' (parentSteps (Suc k)))
        = replicate (Suc k) ''..''"
    by (simp add: splitOn_parentSteps foldl_cleanStep_dotdot0 cleanStep_def
             del: replicate.simps)
  moreover obtain rest where "joinWith ''/'' (replicate (Suc k) ''..'') = ''..'' @ rest"
    using joinWith_dotdot by blast
  ultimately show ?thesis using ne hd
    by (simp add: path_Clean_def Let_def del: replicate.simps)
qed

lemma path_Join_root_parentSteps:
  "path_Join [[], parentSteps k] = [] \<or> (\<exists>rest. path_Join [[], parentSteps k] = ''..'' @ rest)"
proof (cases k)
  case 0
  then show ?thesis by (simp add: path_Join_def parentSteps_def)
next
  case (Suc n)
  have ne: "parentSteps (Suc n) \<noteq> []" by (simp add: parentSteps_def)
  then obtain e es where "parentSteps (Suc n) = e # es" by (cases "parentSteps (Suc n)") auto
  then have "path_Join [[], parentSteps (Suc n)] = path_Clean (parentSteps (Suc n))"
    by (simp add: path_Join_def)
  then show ?thesis using Suc path_Clean_parentSteps[of n] joinWith_dotdot[of n] by auto
qed

lemma probeExtensions_all_fail:
  assumes "\<forall>target. tryResolve c ix fs target from
             = \<lparr>label = NoLabel, selfImport = False, fileName = [], err = None\<rparr>"
  shows "probeExtensions lang c ix fs from target exts tries st
         = Exhausted (tries @ map (\<lambda>ext. target @ ext) exts)"
  by (induction exts arbitrary: tries) (simp_all add: assms Let_def)

lemma walk_from_root_package_diverges:
  assumes pkg: "Pkg from = []"
    and root: "JSRoot (JsConfigs c []) \<noteq> []" "take 2 (JSRoot (JsConfigs c [])) \<noteq> ''..''"
    and fail: "\<forall>target. tryResolve c ix fs target from
             = \<lparr>label = NoLabel, selfImport = False, fileName = [], err = None\<rparr>"
  shows "resolveWalkParents_loop lang c ix fs from name (parentSteps k) tries st = None"
proof (rule ccontr)
  assume "resolveWalkParents_loop lang c ix fs from name (parentSteps k) tries st \<noteq> None"
  then obtain y where y: "resolveWalkParents_loop lang c ix fs from name (parentSteps k) tries st
                          = Some y"
    by auto
  have "c = c \<and> ix = ix \<and> fs = fs \<and> from = from \<and> (\<exists>j. parentSteps k = parentSteps j)
        \<longrightarrow> False"
  proof (rule resolveWalkParents_loop.raw_induct[where
         P = "\<lambda>lang' c' ix' fs' from' name' parents' tries' st' y'.
                c' = c \<and> ix' = ix \<and> fs' = fs \<and> from' = from \<and> (\<exists>k. parents' = parentSteps k)
                \<longrightarrow> False", OF _ y])
    fix walk :: "JS \<Rightarrow> Config \<Rightarrow> RuleIndex \<Rightarrow> FileSystem \<Rightarrow> Label \<Rightarrow> string \<Rightarrow> string
                 \<Rightarrow> string list \<Rightarrow> ResolveState \<Rightarrow> ResolveState option"
      and lang' c' ix' fs' from' name' parents' tries' st' y'
    assume IH: "\<And>lang' c' ix' fs' from' name' parents' tries' st' y'.
        walk lang' c' ix' fs' from' name' parents' tries' st' = Some y' \<Longrightarrow>
        c' = c \<and> ix' = ix \<and> fs' = fs \<and> from' = from \<and> (\<exists>k. parents' = parentSteps k)
        \<longrightarrow> False"
    assume step: "(let jsConfig = JsConfigs c' (Pkg from'); name'' = walkName name';
          localDir = path_Join [Pkg from', parents'];
          target = path_Join [localDir, name'']
      in case probeExtensions lang' c' ix' fs' from' target
               (extraExtensionsToTry lang' jsConfig target) tries' st' of
           Returned st'' \<Rightarrow> Some st''
         | Exhausted tries'' \<Rightarrow>
             if JSRoot jsConfig = localDir \<or> localDir = ''.''
             then Some (notFound jsConfig from' name'' tries'' st')
             else walk lang' c' ix' fs' from' name'' (parents' @ ''../'') tries'' st') = Some y'"
    show "c' = c \<and> ix' = ix \<and> fs' = fs \<and> from' = from \<and> (\<exists>k. parents' = parentSteps k)
          \<longrightarrow> False"
    proof
      assume a: "c' = c \<and> ix' = ix \<and> fs' = fs \<and> from' = from \<and> (\<exists>k. parents' = parentSteps k)"
      then obtain j where j: "parents' = parentSteps j" by blast
      have dir: "JSRoot (JsConfigs c []) \<noteq> path_Join [[], parentSteps j]"
                "path_Join [[], parentSteps j] \<noteq> ''.''"
        using path_Join_root_parentSteps[of j] root by auto
      from step a j pkg dir probeExtensions_all_fail[OF fail]
      have "\<exists>tries''. walk lang' c ix fs from (walkName name') (parentSteps j @ ''../'') tries'' st'
              = Some y'"
        by (auto simp: Let_def)
      then obtain tries'' where
        "walk lang' c ix fs from (walkName name') (parentSteps (Suc j)) tries'' st' = Some y'"
        unfolding parentSteps_Suc by blast
      from IH[OF this] show False by blast
    qed
  qed
  then show False by blast
qed

lemma tryResolve_empty_world:
  "tryResolve exConfig exEmptyIndex exNoFiles target from
     = \<lparr>label = NoLabel, selfImport = False, fileName = [], err = None\<rparr>"
  by (simp add: tryResolve_def overrideLabel_def exConfig_def exEmptyIndex_def exNoFiles_def)

text \<open>
  Claim C9 fails for a rule of the root package. There \<^verbatim>\<open>path.Join\<close> gives
  the directories \<^verbatim>\<open>""\<close>, \<^verbatim>\<open>..\<close>, \<^verbatim>\<open>../..\<close> and so on, none of which
  is \<^verbatim>\<open>.\<close>; with the JS root \<^verbatim>\<open>.\<close> and an import that nothing provides,
  the walk never returns, and neither does \<^verbatim>\<open>Resolve\<close>.
\<close>

theorem root_package_walk_never_returns:
  "resolveWalkParents exLang exConfig exEmptyIndex exNoFiles exRootFrom ''./missing'' exState = None
   \<and> Resolve (\<lambda>m. m) (\<lambda>m. m) exLang exConfig exEmptyIndex exNoFiles (exRule ''ts_project'') [''./missing'']
       exRootFrom = None"
proof -
  have pkg: "Pkg exRootFrom = []" by (simp add: exRootFrom_def)
  have root: "JSRoot (JsConfigs exConfig []) \<noteq> []" "take 2 (JSRoot (JsConfigs exConfig [])) \<noteq> ''..''"
    by (simp_all add: exConfig_def exJsConfig_def)
  have fail: "\<forall>target. tryResolve exConfig exEmptyIndex exNoFiles target exRootFrom
             = \<lparr>label = NoLabel, selfImport = False, fileName = [], err = None\<rparr>"
    by (simp add: tryResolve_empty_world)
  have walk: "resolveWalkParents exLang exConfig exEmptyIndex exNoFiles exRootFrom ''./missing''
                st = None" for st
    using walk_from_root_package_diverges[OF pkg root fail, of exLang "''./missing''" 0 "[]" st]
    by (simp add: resolveWalkParents_def parentSteps_def)
  have npm: "isNpmDependency ''./missing'' exJsConfig = (False, [], False)"
    by (simp add: isNpmDependency_def prefixes_def HasPrefix_def)
  have imp: "resolveImport exLang exConfig exEmptyIndex exNoFiles kind exRootFrom pj ''./missing''
               st = None" for kind pj st
    using walk[of st] npm
    by (simp add: resolveImport_def Let_def fixAliases_def exConfig_def exJsConfig_def
                  HasPrefix_def BUILTINS_def tryResolve_empty_world[unfolded exConfig_def exJsConfig_def])
  have "Resolve (\<lambda>m. m) (\<lambda>m. m) exLang exConfig exEmptyIndex exNoFiles (exRule ''ts_project'')
          [''./missing''] exRootFrom = None"
    by (simp add: Resolve_def Let_def tryResolve_empty_world resolveSets_def imp)
  with walk[of exState] show ?thesis by simp
qed

text \<open>
  For a rule below the root the claim holds: when the package path is made of
  proper path elements, the walk reaches the directory \<^verbatim>\<open>.\<close> after as many
  rounds as the path has elements, and returns there at the latest.
\<close>

lemma splitOn_noslash: "CHR ''/'' \<notin> set s \<Longrightarrow> splitOn CHR ''/'' s = [s]"
  by (induction s) auto

lemma splitOn_segment:
  "CHR ''/'' \<notin> set s \<Longrightarrow> splitOn CHR ''/'' (s @ CHR ''/'' # rest) = s # splitOn CHR ''/'' rest"
  by (induction s) auto

lemma splitOn_joinWith:
  "segs \<noteq> [] \<Longrightarrow> \<forall>seg \<in> set segs. CHR ''/'' \<notin> set seg \<Longrightarrow>
   splitOn CHR ''/'' (joinWith ''/'' segs @ CHR ''/'' # rest) = segs @ splitOn CHR ''/'' rest"
proof (induction segs)
  case Nil
  then show ?case by simp
next
  case (Cons x xs)
  show ?case
  proof (cases xs)
    case Nil
    then show ?thesis using Cons.prems by (simp add: splitOn_segment)
  next
    case (Cons y ys)
    then show ?thesis using Cons.IH Cons.prems by (simp add: splitOn_segment)
  qed
qed

lemma foldl_cleanStep_proper:
  "\<forall>seg \<in> set segs. properSegment seg \<Longrightarrow>
   foldl (cleanStep rooted) st segs = rev segs @ st"
  by (induction segs arbitrary: st) (auto simp: cleanStep_def properSegment_def)

lemma foldl_cleanStep_up:
  "\<forall>seg \<in> set st. properSegment seg \<Longrightarrow> k \<le> length st \<Longrightarrow>
   foldl (cleanStep False) st (replicate k ''..'') = drop k st"
proof (induction k arbitrary: st)
  case 0
  then show ?case by simp
next
  case (Suc k)
  then obtain t ts where st: "st = t # ts" by (cases st) auto
  with Suc.prems have "t \<noteq> ''..''" by (auto simp: properSegment_def)
  then have "cleanStep False st ''..'' = ts" by (simp add: st cleanStep_def)
  then show ?case using Suc.IH[of ts] Suc.prems st by simp
qed

lemma path_Join_package_root:
  assumes "segs \<noteq> []" and "\<forall>seg \<in> set segs. properSegment seg"
  shows "path_Join [joinWith ''/'' segs, parentSteps (length segs)] = ''.''"
proof -
  obtain s0 rest where segs: "segs = s0 # rest" using assms(1) by (cases segs) auto
  obtain ch chs where s0: "s0 = ch # chs" "ch \<noteq> CHR ''/''"
    using assms(2) segs by (cases s0) (auto simp: properSegment_def)
  have pkg: "joinWith ''/'' segs = ch # tl (joinWith ''/'' segs)"
    unfolding segs s0 by (cases rest) simp_all
  have noslash: "\<forall>seg \<in> set segs. CHR ''/'' \<notin> set seg"
    using assms(2) by (simp add: properSegment_def)
  have n: "parentSteps (length segs) \<noteq> []" using assms(1) by (cases segs) (simp_all add: parentSteps_def)
  have split: "splitOn CHR ''/'' (joinWith ''/'' segs @ CHR ''/'' # parentSteps (length segs))
               = segs @ replicate (length segs) ''..'' @ [[]]"
    by (simp add: splitOn_joinWith[OF assms(1) noslash] splitOn_parentSteps)
  have "foldl (cleanStep False) [] (segs @ replicate (length segs) ''..'' @ [[]]) = []"
    using foldl_cleanStep_up[of "rev segs" "length segs"] assms(2)
    by (simp add: foldl_cleanStep_proper[OF assms(2)] cleanStep_def)
  moreover have "joinWith ''/'' segs @ CHR ''/'' # parentSteps (length segs) \<noteq> []"
    and "hd (joinWith ''/'' segs @ CHR ''/'' # parentSteps (length segs)) \<noteq> CHR ''/''"
    using s0(2) by (subst pkg, simp)+
  ultimately have "path_Clean (joinWith ''/'' segs @ CHR ''/'' # parentSteps (length segs)) = ''.''"
    unfolding path_Clean_def split by (simp add: Let_def)
  moreover have "path_Join [joinWith ''/'' segs, parentSteps (length segs)]
      = path_Clean (joinWith ''/'' segs @ CHR ''/'' # parentSteps (length segs))"
    using pkg n by (cases "parentSteps (length segs)") 
       (auto simp: path_Join_def split: list.splits)
  ultimately show ?thesis by simp
qed

lemma walk_returns_from:
  assumes "path_Join [Pkg from, parentSteps n] = ''.''" and "k \<le> n"
  shows "\<exists>y. resolveWalkParents_loop lang c ix fs from name (parentSteps k) tries st = Some y"
  using assms(2)
proof (induction "n - k" arbitrary: k name tries)
  case 0
  then have k: "k = n" by simp
  show ?case
    by (subst resolveWalkParents_loop.simps) (simp add: Let_def k assms(1) split: probe.splits)
next
  case (Suc d)
  then have "Suc k \<le> n" "d = n - Suc k" by simp_all
  from Suc.hyps(1)[OF this(2) this(1)]
  have next_round: "\<exists>y. resolveWalkParents_loop lang c ix fs from name' (parentSteps (Suc k)) tries' st
                 = Some y" for name' tries'
    by blast
  show ?case
    by (subst resolveWalkParents_loop.simps)
       (use next_round in \<open>auto simp: Let_def parentSteps_Suc split: probe.splits\<close>)
qed

lemma walk_returns_below_root:
  assumes "Pkg from = joinWith ''/'' segs" and "segs \<noteq> []"
    and "\<forall>seg \<in> set segs. properSegment seg"
  shows "\<exists>y. resolveWalkParents lang c ix fs from name st = Some y"
  using walk_returns_from[of "from" "length segs" 0 lang c ix fs name "[]" st]
        path_Join_package_root[OF assms(2,3)] assms(1)
  by (simp add: resolveWalkParents_def parentSteps_def)

end
